theory Spec2Isabelle
  imports Main "HOL-Library.Sublist"
begin

section \<open>The book-listing endpoint of \<^verbatim>\<open>main.go\<close>\<close>

text \<open>
  The repository is one Go file: an HTTP handler \<^verbatim>\<open>makeGetBooksHandler\<close> around
  \<^verbatim>\<open>getBooks\<close>, which validates four query parameters, builds a parameterised
  SELECT statement, runs it and scans the rows into \<^verbatim>\<open>Book\<close> values.

  A Go \<^verbatim>\<open>string\<close> is a sequence of bytes, here a \<^typ>\<open>string\<close> (a list of 8-bit
  \<^typ>\<open>char\<close>s). Go's \<^verbatim>\<open>int\<close> and \<^verbatim>\<open>int64\<close> are modelled by \<^typ>\<open>int\<close>; the
  only place where the width matters is the range check of \<^verbatim>\<open>strconv.Atoi\<close>, which
  is written out for the 64-bit \<^verbatim>\<open>int\<close> of the usual targets. No arithmetic is
  done on the parsed values afterwards.
\<close>

subsection \<open>Library functions the handler calls\<close>

text \<open>
  \<^verbatim>\<open>strings.TrimSpace\<close> removes the leading and the trailing white space of a string, as
  \<^verbatim>\<open>unicode.IsSpace\<close> defines it: the ASCII characters tab, line feed, vertical tab,
  form feed, carriage return and space, and the code points U+0085, U+00A0, U+1680,
  U+2000 to U+200A, U+2028, U+2029, U+202F, U+205F and U+3000. On bytes these are the
  UTF-8 encodings below. A byte sequence that is not one of these encodings (also an
  invalid one, which Go decodes as U+FFFD) is not white space and stops the trimming.
\<close>

definition space_encodings :: "string list" where
  "space_encodings =
     [[CHR 0x09], [CHR 0x0A], [CHR 0x0B], [CHR 0x0C], [CHR 0x0D], [CHR 0x20],
      [CHR 0xC2, CHR 0x85], [CHR 0xC2, CHR 0xA0],
      [CHR 0xE1, CHR 0x9A, CHR 0x80],
      [CHR 0xE2, CHR 0x80, CHR 0x80], [CHR 0xE2, CHR 0x80, CHR 0x81],
      [CHR 0xE2, CHR 0x80, CHR 0x82], [CHR 0xE2, CHR 0x80, CHR 0x83],
      [CHR 0xE2, CHR 0x80, CHR 0x84], [CHR 0xE2, CHR 0x80, CHR 0x85],
      [CHR 0xE2, CHR 0x80, CHR 0x86], [CHR 0xE2, CHR 0x80, CHR 0x87],
      [CHR 0xE2, CHR 0x80, CHR 0x88], [CHR 0xE2, CHR 0x80, CHR 0x89],
      [CHR 0xE2, CHR 0x80, CHR 0x8A],
      [CHR 0xE2, CHR 0x80, CHR 0xA8], [CHR 0xE2, CHR 0x80, CHR 0xA9],
      [CHR 0xE2, CHR 0x80, CHR 0xAF],
      [CHR 0xE2, CHR 0x81, CHR 0x9F],
      [CHR 0xE3, CHR 0x80, CHR 0x80]]"

text \<open>The width in bytes of the white-space character a string starts with (0 if none).\<close>

definition leadingSpace :: "string \<Rightarrow> nat" where
  "leadingSpace s =
     (case find (\<lambda>e. take (length e) s = e) space_encodings of
        None \<Rightarrow> 0
      | Some e \<Rightarrow> length e)"

text \<open>The width in bytes of the white-space character a string ends with (0 if none).\<close>

definition trailingSpace :: "string \<Rightarrow> nat" where
  "trailingSpace s =
     (case find (\<lambda>e. drop (length s - length e) s = e) space_encodings of
        None \<Rightarrow> 0
      | Some e \<Rightarrow> length e)"

function TrimLeft :: "string \<Rightarrow> string" where
  "TrimLeft s = (if leadingSpace s = 0 then s else TrimLeft (drop (leadingSpace s) s))"
  by pat_completeness auto
termination
proof (relation "measure length")
  show "wf (measure length)" by simp
next
  fix s :: string
  assume a: "leadingSpace s \<noteq> 0"
  have "leadingSpace [] = 0"
    by (simp add: leadingSpace_def space_encodings_def)
  with a have "s \<noteq> []" by auto
  with a show "(drop (leadingSpace s) s, s) \<in> measure length" by simp
qed

function TrimRight :: "string \<Rightarrow> string" where
  "TrimRight s =
     (if trailingSpace s = 0 then s else TrimRight (take (length s - trailingSpace s) s))"
  by pat_completeness auto
termination
proof (relation "measure length")
  show "wf (measure length)" by simp
next
  fix s :: string
  assume a: "trailingSpace s \<noteq> 0"
  have "trailingSpace [] = 0"
    by (simp add: trailingSpace_def space_encodings_def)
  with a have "s \<noteq> []" by auto
  with a show "(take (length s - trailingSpace s) s, s) \<in> measure length" by simp
qed

declare TrimLeft.simps [simp del] TrimRight.simps [simp del]

definition TrimSpace :: "string \<Rightarrow> string" where
  "TrimSpace s = TrimRight (TrimLeft s)"

text \<open>
  \<^verbatim>\<open>strconv.Atoi\<close> is \<^verbatim>\<open>ParseInt(s, 10, 0)\<close>: an optional sign \<^verbatim>\<open>+\<close> or \<^verbatim>\<open>-\<close>,
  then one or more decimal digits and nothing else (no white space, no underscore); the
  value must lie in the range of \<^verbatim>\<open>int\<close>. \<open>None\<close> stands for a non-nil error.
\<close>

definition isDigit :: "char \<Rightarrow> bool" where
  "isDigit c = (48 \<le> (of_char c :: nat) \<and> (of_char c :: nat) \<le> 57)"

definition digitVal :: "char \<Rightarrow> nat" where
  "digitVal c = of_char c - 48"

fun parseDigits :: "string \<Rightarrow> nat \<Rightarrow> nat option" where
  "parseDigits [] n = Some n"
| "parseDigits (c # cs) n =
     (if isDigit c then parseDigits cs (n * 10 + digitVal c) else None)"

definition Atoi :: "string \<Rightarrow> int option" where
  "Atoi s =
     (case s of
        [] \<Rightarrow> None
      | c # cs \<Rightarrow>
          (let neg = (c = CHR ''-'');
               body = (if c = CHR ''-'' \<or> c = CHR ''+'' then cs else s)
           in if body = [] then None
              else (case parseDigits body 0 of
                      None \<Rightarrow> None
                    | Some n \<Rightarrow>
                        (let v = (if neg then - int n else int n)
                         in if - (2 ^ 63) \<le> v \<and> v < 2 ^ 63 then Some v else None))))"

text \<open>
  \<^verbatim>\<open>fmt.Sprintf("%d", n)\<close>: the decimal numeral of an integer, with a minus sign
  when it is negative.
\<close>

definition digitChar :: "nat \<Rightarrow> char" where
  "digitChar d = char_of (48 + d)"

function natDecimal :: "nat \<Rightarrow> string" where
  "natDecimal n =
     (if n < 10 then [digitChar n] else natDecimal (n div 10) @ [digitChar (n mod 10)])"
  by pat_completeness auto
termination
  by (relation "measure id") auto

declare natDecimal.simps [simp del]

definition Sprintf_d :: "int \<Rightarrow> string" where
  "Sprintf_d i = (if i < 0 then CHR ''-'' # natDecimal (nat (- i)) else natDecimal (nat i))"

text \<open>\<^verbatim>\<open>strings.Join\<close>.\<close>

fun Join :: "string list \<Rightarrow> string \<Rightarrow> string" where
  "Join [] sep = []"
| "Join [x] sep = x"
| "Join (x # y # ys) sep = x @ sep @ Join (y # ys) sep"

text \<open>
  \<^verbatim>\<open>url.Values\<close> is a \<^verbatim>\<open>map[string][]string\<close>; \<^verbatim>\<open>Get\<close> returns the first value
  stored under the key, and the empty string when there is none.
\<close>

type_synonym Values = "string \<rightharpoonup> string list"

definition Get :: "Values \<Rightarrow> string \<Rightarrow> string" where
  "Get v key = (case v key of None \<Rightarrow> [] | Some [] \<Rightarrow> [] | Some (x # xs) \<Rightarrow> x)"

subsection \<open>Data model\<close>

record Book =
  ID :: int
  Title :: string
  Price :: int
  Genre :: string

text \<open>
  An \<^verbatim>\<open>error\<close> is either made by \<^verbatim>\<open>fmt.Errorf\<close> in \<^verbatim>\<open>getBooks\<close> or comes from
  \<^verbatim>\<open>database/sql\<close> (the query, a \<^verbatim>\<open>Scan\<close>, or \<^verbatim>\<open>rows.Err\<close>); both carry their
  message.
\<close>

datatype error = Errorf string | SqlError string

fun Error :: "error \<Rightarrow> string" where
  "Error (Errorf m) = m"
| "Error (SqlError m) = m"

text \<open>The elements of \<^verbatim>\<open>args []interface{}\<close>: the genre string, and the two integers.\<close>

datatype arg = ArgString string | ArgInt int

text \<open>
  The result cursor \<^verbatim>\<open>*sql.Rows\<close>: what \<^verbatim>\<open>Scan\<close> gives for each row that
  \<^verbatim>\<open>Next\<close> delivers, in order, and what \<^verbatim>\<open>Err\<close> reports once \<^verbatim>\<open>Next\<close> has
  returned false.
\<close>

record Rows =
  scans :: "(error + Book) list"
  rowsErr :: "error option"

text \<open>
  The database handle, together with the clock: \<^verbatim>\<open>db.QueryContext\<close> applied to a
  statement and its arguments gives the milliseconds that \<^verbatim>\<open>time.Since(start)\<close>
  measures around the call, and an error or a cursor.
\<close>

type_synonym DB = "string \<Rightarrow> arg list \<Rightarrow> int \<times> (error + Rows)"

text \<open>What \<^verbatim>\<open>log.Printf("SQL: %s | args=%v | took=%dms", query, args, elapsed)\<close> writes.\<close>

datatype log_record = LogQuery string "arg list" int

text \<open>
  Everything one call of \<^verbatim>\<open>getBooks\<close> does: its three results (a nil slice is
  \<open>None\<close>, a non-nil slice is \<open>Some\<close>; a nil error is \<open>None\<close>), the log records
  written, and the statements sent to the database.
\<close>

record Outcome =
  books :: "Book list option"
  queryTimeMs :: int
  err :: "error option"
  logs :: "log_record list"
  dbCalls :: "(string \<times> arg list) list"

subsection \<open>\<^verbatim>\<open>getBooks\<close>\<close>

definition defaultLimit :: int where
  "defaultLimit = 10"

definition maxLimit :: int where
  "maxLimit = 100"

text \<open>Lines 72 to 82: the variable \<^verbatim>\<open>limit\<close>, or the early return.\<close>

definition resolveLimit :: "string \<Rightarrow> error + int" where
  "resolveLimit raw =
     (let s = TrimSpace raw;
          parsed = (if s \<noteq> []
                    then (case Atoi s of
                            Some v \<Rightarrow> if v > 0 then Inr v else Inl (Errorf ''invalid limit'')
                          | None \<Rightarrow> Inl (Errorf ''invalid limit''))
                    else Inr defaultLimit)
      in case parsed of
           Inl e \<Rightarrow> Inl e
         | Inr limit \<Rightarrow> Inr (if limit > maxLimit then maxLimit else limit))"

text \<open>Lines 84 to 91: the variable \<^verbatim>\<open>offset\<close>, or the early return.\<close>

definition resolveOffset :: "string \<Rightarrow> error + int" where
  "resolveOffset raw =
     (let s = TrimSpace raw
      in if s \<noteq> []
         then (case Atoi s of
                 Some v \<Rightarrow> if v \<ge> 0 then Inr v else Inl (Errorf ''invalid offset'')
               | None \<Rightarrow> Inl (Errorf ''invalid offset''))
         else Inr 0)"

text \<open>Lines 95 to 105: the variable \<^verbatim>\<open>orderBy\<close> from the trimmed \<^verbatim>\<open>sort\<close>, or the early return.\<close>

definition resolveOrderBy :: "string \<Rightarrow> error + string" where
  "resolveOrderBy sortParam =
     (if sortParam = [] then Inr []
      else if sortParam = ''price_asc'' then Inr ''price ASC''
      else if sortParam = ''price_desc'' then Inr ''price DESC''
      else Inl (Errorf ''invalid sort value''))"

text \<open>Lines 107 to 132: the statement and its arguments.\<close>

definition buildQuery :: "string \<Rightarrow> string \<Rightarrow> int \<Rightarrow> int \<Rightarrow> string \<times> arg list" where
  "buildQuery genre orderBy limit offset =
     (let args0 = [];
          where0 = [];
          args1 = (if genre \<noteq> [] then args0 @ [ArgString genre] else args0);
          where1 = (if genre \<noteq> []
                    then where0 @ [''genre = $'' @ Sprintf_d (int (length args1))]
                    else where0);
          sb0 = ''SELECT id, title, price, genre FROM books'';
          sb1 = (if length where1 > 0 then sb0 @ '' WHERE '' @ Join where1 '' AND '' else sb0);
          sb2 = (if orderBy \<noteq> [] then sb1 @ ('' ORDER BY '' @ orderBy) else sb1);
          args2 = args1 @ [ArgInt limit];
          sb3 = sb2 @ ('' LIMIT $'' @ Sprintf_d (int (length args2)));
          args3 = args2 @ [ArgInt offset];
          sb4 = sb3 @ ('' OFFSET $'' @ Sprintf_d (int (length args3)))
      in (sb4, args3))"

text \<open>
  Lines 145 to 152: the loop over the cursor. \<^verbatim>\<open>books\<close> starts as the nil slice;
  \<^verbatim>\<open>append\<close> makes it non-nil. A failing \<^verbatim>\<open>Scan\<close> returns at once.
  \<^verbatim>\<open>len\<close> is Go's length of a slice, 0 for the nil slice.
\<close>

fun appendBook :: "Book list option \<Rightarrow> Book \<Rightarrow> Book list option" where
  "appendBook None b = Some [b]"
| "appendBook (Some bs) b = Some (bs @ [b])"

definition len :: "Book list option \<Rightarrow> nat" where
  "len bs = (case bs of None \<Rightarrow> 0 | Some xs \<Rightarrow> length xs)"

fun scanLoop :: "(error + Book) list \<Rightarrow> Book list option \<Rightarrow> error + Book list option" where
  "scanLoop [] acc = Inr acc"
| "scanLoop (Inl e # rest) acc = Inl e"
| "scanLoop (Inr b # rest) acc = scanLoop rest (appendBook acc b)"

text \<open>The early returns of the validation: \<^verbatim>\<open>return nil, 0, fmt.Errorf(...)\<close>.\<close>

definition invalid :: "error \<Rightarrow> Outcome" where
  "invalid e = \<lparr>books = None, queryTimeMs = 0, err = Some e, logs = [], dbCalls = []\<rparr>"

text \<open>Lines 134 to 156: the call, the log record, and the rows.\<close>

definition runQuery :: "DB \<Rightarrow> string \<Rightarrow> arg list \<Rightarrow> Outcome" where
  "runQuery db query args =
     (case db query args of
        (elapsed, res) \<Rightarrow>
          (let lg = [LogQuery query args elapsed];
               calls = [(query, args)]
           in case res of
                Inl e \<Rightarrow>
                  \<lparr>books = None, queryTimeMs = elapsed, err = Some e,
                   logs = lg, dbCalls = calls\<rparr>
              | Inr rows \<Rightarrow>
                  (case scanLoop (scans rows) None of
                     Inl e \<Rightarrow>
                       \<lparr>books = None, queryTimeMs = elapsed, err = Some e,
                        logs = lg, dbCalls = calls\<rparr>
                   | Inr bs \<Rightarrow>
                       (case rowsErr rows of
                          Some e \<Rightarrow>
                            \<lparr>books = None, queryTimeMs = elapsed, err = Some e,
                             logs = lg, dbCalls = calls\<rparr>
                        | None \<Rightarrow>
                            \<lparr>books = bs, queryTimeMs = elapsed, err = None,
                             logs = lg, dbCalls = calls\<rparr>))))"

definition getBooks :: "DB \<Rightarrow> Values \<Rightarrow> Outcome" where
  "getBooks db q =
     (case resolveLimit (Get q ''limit'') of
        Inl e \<Rightarrow> invalid e
      | Inr limit \<Rightarrow>
          (case resolveOffset (Get q ''offset'') of
             Inl e \<Rightarrow> invalid e
           | Inr offset \<Rightarrow>
               (let genre = TrimSpace (Get q ''genre'');
                    sortParam = TrimSpace (Get q ''sort'')
                in case resolveOrderBy sortParam of
                     Inl e \<Rightarrow> invalid e
                   | Inr orderBy \<Rightarrow>
                       (case buildQuery genre orderBy limit offset of
                          (query, args) \<Rightarrow> runQuery db query args))))"

subsection \<open>\<^verbatim>\<open>makeGetBooksHandler\<close>\<close>

text \<open>
  \<^verbatim>\<open>json.Encoder.Encode\<close> of a \<^verbatim>\<open>[]Book\<close>: a nil slice is written as the JSON
  value \<^verbatim>\<open>null\<close>, a non-nil slice as a JSON array of its elements (the layout of
  the text, indented by two spaces, is not modelled).
\<close>

datatype json = JNull | JArray "Book list"

fun Encode :: "Book list option \<Rightarrow> json" where
  "Encode None = JNull"
| "Encode (Some bs) = JArray bs"

text \<open>
  The body is the line \<^verbatim>\<open>http.Error\<close> writes, or the encoded value. A handler
  that never calls \<^verbatim>\<open>WriteHeader\<close> answers 200.
\<close>

datatype body = ErrorText string | JsonBody json

record Response =
  status :: nat
  xQueryTime :: string
  payload :: body

definition StatusBadRequest :: nat where
  "StatusBadRequest = 400"

definition StatusOK :: nat where
  "StatusOK = 200"

definition makeGetBooksHandler :: "DB \<Rightarrow> Values \<Rightarrow> Response" where
  "makeGetBooksHandler db q =
     (let out = getBooks db q;
          hdr = Sprintf_d (queryTimeMs out) @ ''ms''
      in case err out of
           Some e \<Rightarrow> \<lparr>status = StatusBadRequest, xQueryTime = hdr, payload = ErrorText (Error e)\<rparr>
         | None \<Rightarrow> \<lparr>status = StatusOK, xQueryTime = hdr, payload = JsonBody (Encode (books out))\<rparr>)"

section \<open>What the specification says\<close>

subsection \<open>Parameters that fail validation\<close>

text \<open>
  The specification's errors \<^verbatim>\<open>InvalidParameter("limit")\<close>,
  \<^verbatim>\<open>InvalidParameter("offset")\<close> and \<^verbatim>\<open>InvalidParameter("sort")\<close> are the
  code's \<^verbatim>\<open>fmt.Errorf("invalid limit")\<close>, \<^verbatim>\<open>fmt.Errorf("invalid offset")\<close> and
  \<^verbatim>\<open>fmt.Errorf("invalid sort value")\<close>. The parameters that fail validation are:

  a \<^verbatim>\<open>limit\<close> that is present and non-empty and does not parse as a positive integer;
  an \<^verbatim>\<open>offset\<close> that is present and non-empty and does not parse as a non-negative
  integer; a \<^verbatim>\<open>sort\<close> outside the three accepted values. Parsing is
  \<^verbatim>\<open>strconv.Atoi\<close> on the trimmed value.
\<close>

definition limitInvalid :: "string \<Rightarrow> bool" where
  "limitInvalid raw =
     (TrimSpace raw \<noteq> [] \<and> (case Atoi (TrimSpace raw) of None \<Rightarrow> True | Some v \<Rightarrow> v \<le> 0))"

definition offsetInvalid :: "string \<Rightarrow> bool" where
  "offsetInvalid raw =
     (TrimSpace raw \<noteq> [] \<and> (case Atoi (TrimSpace raw) of None \<Rightarrow> True | Some v \<Rightarrow> v < 0))"

definition sortValues :: "string list" where
  "sortValues = ['''', ''price_asc'', ''price_desc'']"

definition sortInvalid :: "string \<Rightarrow> bool" where
  "sortInvalid raw = (TrimSpace raw \<notin> set sortValues)"

definition validRequest :: "Values \<Rightarrow> bool" where
  "validRequest q =
     (\<not> limitInvalid (Get q ''limit'') \<and> \<not> offsetInvalid (Get q ''offset'')
      \<and> \<not> sortInvalid (Get q ''sort''))"

text \<open>
  A string that consists of white-space characters only: read from the left, it is one
  white-space character after the other, to its end.
\<close>

function whitespaceOnly :: "string \<Rightarrow> bool" where
  "whitespaceOnly s =
     (if s = [] then True
      else if leadingSpace s = 0 then False
      else whitespaceOnly (drop (leadingSpace s) s))"
  by pat_completeness auto
termination
  by (relation "measure length") auto

declare whitespaceOnly.simps [simp del]

subsection \<open>The statement and its arguments\<close>

text \<open>
  The fixed statement texts: one for each combination of a genre filter being present or
  not and of the three sort values.
\<close>

definition sqlTemplate :: "bool \<Rightarrow> string \<Rightarrow> string" where
  "sqlTemplate hasGenre sortParam =
     (if hasGenre
      then (if sortParam = ''price_asc''
            then ''SELECT id, title, price, genre FROM books WHERE genre = $1 ORDER BY price ASC LIMIT $2 OFFSET $3''
            else if sortParam = ''price_desc''
            then ''SELECT id, title, price, genre FROM books WHERE genre = $1 ORDER BY price DESC LIMIT $2 OFFSET $3''
            else ''SELECT id, title, price, genre FROM books WHERE genre = $1 LIMIT $2 OFFSET $3'')
      else (if sortParam = ''price_asc''
            then ''SELECT id, title, price, genre FROM books ORDER BY price ASC LIMIT $1 OFFSET $2''
            else if sortParam = ''price_desc''
            then ''SELECT id, title, price, genre FROM books ORDER BY price DESC LIMIT $1 OFFSET $2''
            else ''SELECT id, title, price, genre FROM books LIMIT $1 OFFSET $2''))"

definition sqlTemplates :: "string list" where
  "sqlTemplates =
     [''SELECT id, title, price, genre FROM books LIMIT $1 OFFSET $2'',
      ''SELECT id, title, price, genre FROM books ORDER BY price ASC LIMIT $1 OFFSET $2'',
      ''SELECT id, title, price, genre FROM books ORDER BY price DESC LIMIT $1 OFFSET $2'',
      ''SELECT id, title, price, genre FROM books WHERE genre = $1 LIMIT $2 OFFSET $3'',
      ''SELECT id, title, price, genre FROM books WHERE genre = $1 ORDER BY price ASC LIMIT $2 OFFSET $3'',
      ''SELECT id, title, price, genre FROM books WHERE genre = $1 ORDER BY price DESC LIMIT $2 OFFSET $3'']"

text \<open>The bound arguments: the genre if there is one, then the limit, then the offset.\<close>

definition boundArgs :: "string \<Rightarrow> int \<Rightarrow> int \<Rightarrow> arg list" where
  "boundArgs genre limit offset =
     (if genre \<noteq> [] then [ArgString genre] else []) @ [ArgInt limit, ArgInt offset]"

text \<open>
  The statement clause by clause, as section 4.1 of the specification builds it. The
  placeholder \<^verbatim>\<open>$n\<close> stands for the \<open>n\<close>-th bound argument, counted from 1.
\<close>

definition selectBase :: string where
  "selectBase = ''SELECT id, title, price, genre FROM books''"

definition whereClause :: "string \<Rightarrow> string" where
  "whereClause genre = (if genre \<noteq> [] then '' WHERE genre = $1'' else [])"

definition orderClause :: "string \<Rightarrow> string" where
  "orderClause sortParam =
     (if sortParam = ''price_asc'' then '' ORDER BY price ASC''
      else if sortParam = ''price_desc'' then '' ORDER BY price DESC''
      else [])"

definition placeholder :: "nat \<Rightarrow> string" where
  "placeholder n = CHR ''$'' # Sprintf_d (int n)"

definition boundTo :: "arg list \<Rightarrow> nat \<Rightarrow> arg option" where
  "boundTo args n = (if 1 \<le> n \<and> n \<le> length args then Some (args ! (n - 1)) else None)"

subsection \<open>Example databases and requests\<close>

definition book1 :: Book where
  "book1 = \<lparr>ID = 1, Title = ''Dune'', Price = 10, Genre = ''Fiction''\<rparr>"

definition book2 :: Book where
  "book2 = \<lparr>ID = 2, Title = ''Emma'', Price = 20, Genre = ''Fiction''\<rparr>"

definition dbTwoRows :: DB where
  "dbTwoRows query args = (7, Inr \<lparr>scans = [Inr book1, Inr book2], rowsErr = None\<rparr>)"

definition dbNoRows :: DB where
  "dbNoRows query args = (3, Inr \<lparr>scans = [], rowsErr = None\<rparr>)"

definition dbBadRow :: DB where
  "dbBadRow query args =
     (5, Inr \<lparr>scans = [Inr book1, Inl (SqlError ''Scan error on column index 1'')],
              rowsErr = None\<rparr>)"

definition dbCursorError :: DB where
  "dbCursorError query args =
     (5, Inr \<lparr>scans = [Inr book1], rowsErr = Some (SqlError ''unexpected EOF'')\<rparr>)"

definition dbDown :: DB where
  "dbDown query args = (2, Inl (SqlError ''connection refused''))"

definition reqDefault :: Values where
  "reqDefault = Map.empty"

definition reqFull :: Values where
  "reqFull = [''limit'' \<mapsto> ['' 500 ''], ''offset'' \<mapsto> [''20''],
              ''genre'' \<mapsto> ['' Fiction ''], ''sort'' \<mapsto> [''price_desc'']]"

definition reqSmall :: Values where
  "reqSmall = [''limit'' \<mapsto> [''25''], ''offset'' \<mapsto> [''0''], ''sort'' \<mapsto> [''price_asc'']]"

definition reqLimitZero :: Values where
  "reqLimitZero = [''limit'' \<mapsto> [''0'']]"

definition reqOffsetNegative :: Values where
  "reqOffsetNegative = [''offset'' \<mapsto> [''-1'']]"

definition reqSortTitle :: Values where
  "reqSortTitle = [''sort'' \<mapsto> [''title'']]"

definition reqBadLimitBadOffset :: Values where
  "reqBadLimitBadOffset = [''limit'' \<mapsto> [''abc''], ''offset'' \<mapsto> [''-1'']]"

definition reqBadLimitBadSort :: Values where
  "reqBadLimitBadSort = [''limit'' \<mapsto> [''abc''], ''sort'' \<mapsto> [''title'']]"

definition reqBlank :: Values where
  "reqBlank = [''limit'' \<mapsto> ['' ''], ''offset'' \<mapsto> [[CHR 0x09, CHR 0xC2, CHR 0xA0]],
               ''genre'' \<mapsto> [''Fiction'']]"

section \<open>Properties of the model\<close>

subsection \<open>The library functions on the inputs that matter\<close>

lemma TrimLeft_Nil: "TrimLeft [] = []"
  by (simp add: TrimLeft.simps leadingSpace_def space_encodings_def)

lemma TrimRight_Nil: "TrimRight [] = []"
  by (simp add: TrimRight.simps trailingSpace_def space_encodings_def)

lemma TrimSpace_Nil: "TrimSpace [] = []"
  by (simp add: TrimSpace_def TrimLeft_Nil TrimRight_Nil)

lemma Atoi_Nil: "Atoi [] = None"
  by (simp add: Atoi_def)

lemma Get_absent: "q key = None \<Longrightarrow> Get q key = []"
  by (simp add: Get_def)

lemma Sprintf_d_1: "Sprintf_d 1 = ''1''"
  by code_simp
lemma Sprintf_d_2: "Sprintf_d 2 = ''2''"
  by code_simp
lemma Sprintf_d_3: "Sprintf_d 3 = ''3''"
  by code_simp

lemma buildQuery_no_genre:
  "buildQuery [] orderBy limit offset =
     (''SELECT id, title, price, genre FROM books''
        @ (if orderBy \<noteq> [] then '' ORDER BY '' @ orderBy else [])
        @ '' LIMIT $1 OFFSET $2'',
      [ArgInt limit, ArgInt offset])"
  by (simp add: buildQuery_def Sprintf_d_1 Sprintf_d_2)

lemma buildQuery_genre:
  "genre \<noteq> [] \<Longrightarrow>
   buildQuery genre orderBy limit offset =
     (''SELECT id, title, price, genre FROM books WHERE genre = $1''
        @ (if orderBy \<noteq> [] then '' ORDER BY '' @ orderBy else [])
        @ '' LIMIT $2 OFFSET $3'',
      [ArgString genre, ArgInt limit, ArgInt offset])"
  by (simp add: buildQuery_def Sprintf_d_1 Sprintf_d_2 Sprintf_d_3)

lemma resolveLimit_Inl:
  "resolveLimit raw = Inl e \<longleftrightarrow> limitInvalid raw \<and> e = Errorf ''invalid limit''"
  by (auto simp: resolveLimit_def limitInvalid_def Let_def split: option.splits if_splits)

lemma resolveOffset_Inl:
  "resolveOffset raw = Inl e \<longleftrightarrow> offsetInvalid raw \<and> e = Errorf ''invalid offset''"
  by (auto simp: resolveOffset_def offsetInvalid_def Let_def split: option.splits if_splits)

lemma resolveOrderBy_Inl:
  "resolveOrderBy (TrimSpace raw) = Inl e \<longleftrightarrow> sortInvalid raw \<and> e = Errorf ''invalid sort value''"
  by (auto simp: resolveOrderBy_def sortInvalid_def sortValues_def)

lemma resolveOrderBy_Inr:
  "resolveOrderBy s = Inr ob \<longleftrightarrow>
     (s = [] \<and> ob = []) \<or> (s = ''price_asc'' \<and> ob = ''price ASC'')
       \<or> (s = ''price_desc'' \<and> ob = ''price DESC'')"
  by (auto simp: resolveOrderBy_def)

lemma getBooks_limit_fails:
  "resolveLimit (Get q ''limit'') = Inl e \<Longrightarrow> getBooks db q = invalid e"
  by (simp add: getBooks_def)

lemma getBooks_offset_fails:
  "resolveLimit (Get q ''limit'') = Inr l \<Longrightarrow> resolveOffset (Get q ''offset'') = Inl e \<Longrightarrow>
   getBooks db q = invalid e"
  by (simp add: getBooks_def)

lemma getBooks_sort_fails:
  "resolveLimit (Get q ''limit'') = Inr l \<Longrightarrow> resolveOffset (Get q ''offset'') = Inr off \<Longrightarrow>
   resolveOrderBy (TrimSpace (Get q ''sort'')) = Inl e \<Longrightarrow>
   getBooks db q = invalid e"
  by (simp add: getBooks_def)

lemma getBooks_runs:
  "resolveLimit (Get q ''limit'') = Inr l \<Longrightarrow> resolveOffset (Get q ''offset'') = Inr off \<Longrightarrow>
   resolveOrderBy (TrimSpace (Get q ''sort'')) = Inr ob \<Longrightarrow>
   getBooks db q =
     runQuery db (fst (buildQuery (TrimSpace (Get q ''genre'')) ob l off))
                 (snd (buildQuery (TrimSpace (Get q ''genre'')) ob l off))"
  by (simp add: getBooks_def split: prod.splits)

lemma runQuery_dbCalls: "dbCalls (runQuery db query args) = [(query, args)]"
  by (simp add: runQuery_def Let_def split: prod.splits sum.splits option.splits)

lemma runQuery_logs: "logs (runQuery db query args) = [LogQuery query args (fst (db query args))]"
  by (simp add: runQuery_def Let_def split: prod.splits sum.splits option.splits)

lemma runQuery_queryTimeMs: "queryTimeMs (runQuery db query args) = fst (db query args)"
  by (simp add: runQuery_def Let_def split: prod.splits sum.splits option.splits)

text \<open>The three ways a request is rejected, and the one way it is run.\<close>

lemma getBooks_cases:
  obtains
    (limit) "limitInvalid (Get q ''limit'')" "getBooks db q = invalid (Errorf ''invalid limit'')"
  | (offset) l where "resolveLimit (Get q ''limit'') = Inr l"
      "offsetInvalid (Get q ''offset'')" "getBooks db q = invalid (Errorf ''invalid offset'')"
  | (sort) l off where "resolveLimit (Get q ''limit'') = Inr l"
      "resolveOffset (Get q ''offset'') = Inr off"
      "sortInvalid (Get q ''sort'')" "getBooks db q = invalid (Errorf ''invalid sort value'')"
  | (run) l off ob where "resolveLimit (Get q ''limit'') = Inr l"
      "resolveOffset (Get q ''offset'') = Inr off"
      "resolveOrderBy (TrimSpace (Get q ''sort'')) = Inr ob"
      "getBooks db q =
         runQuery db (fst (buildQuery (TrimSpace (Get q ''genre'')) ob l off))
                     (snd (buildQuery (TrimSpace (Get q ''genre'')) ob l off))"
proof (cases "resolveLimit (Get q ''limit'')")
  case (Inl e)
  then show ?thesis using limit getBooks_limit_fails[OF Inl] by (simp add: resolveLimit_Inl)
next
  case l: (Inr l)
  show ?thesis
  proof (cases "resolveOffset (Get q ''offset'')")
    case (Inl e)
    then show ?thesis using offset[OF l] getBooks_offset_fails[OF l Inl]
      by (simp add: resolveOffset_Inl)
  next
    case off: (Inr off)
    show ?thesis
    proof (cases "resolveOrderBy (TrimSpace (Get q ''sort''))")
      case (Inl e)
      then show ?thesis using sort[OF l off] getBooks_sort_fails[OF l off Inl]
        by (simp add: resolveOrderBy_Inl)
    next
      case (Inr ob)
      then show ?thesis using run[OF l off Inr] getBooks_runs[OF l off Inr] by simp
    qed
  qed
qed


lemma buildQuery_template:
  assumes "resolveOrderBy sortParam = Inr ob"
  shows "buildQuery genre ob limit offset =
           (sqlTemplate (genre \<noteq> []) sortParam, boundArgs genre limit offset)"
proof (cases "genre = []")
  case True
  with assms show ?thesis
    by (auto simp: resolveOrderBy_Inr buildQuery_no_genre sqlTemplate_def boundArgs_def)
next
  case False
  with assms show ?thesis
    by (auto simp: resolveOrderBy_Inr buildQuery_genre sqlTemplate_def boundArgs_def)
qed

lemma sqlTemplate_in_templates: "sqlTemplate b s \<in> set sqlTemplates"
  by (simp add: sqlTemplate_def sqlTemplates_def)

lemma dbCalls_invalid: "dbCalls (invalid e) = []"
  by (simp add: invalid_def)


subsection \<open>The outcomes of \<^verbatim>\<open>getBooks\<close>\<close>

lemma invalid_sel:
  "books (invalid e) = None" "queryTimeMs (invalid e) = 0" "err (invalid e) = Some e"
  "logs (invalid e) = []"
  by (simp_all add: invalid_def)

lemma resolveLimit_valid: "\<not> limitInvalid raw \<Longrightarrow> \<exists>l. resolveLimit raw = Inr l"
  by (cases "resolveLimit raw") (simp_all add: resolveLimit_Inl)

lemma resolveOffset_valid: "\<not> offsetInvalid raw \<Longrightarrow> \<exists>off. resolveOffset raw = Inr off"
  by (cases "resolveOffset raw") (simp_all add: resolveOffset_Inl)

lemma resolveOrderBy_valid: "\<not> sortInvalid raw \<Longrightarrow> \<exists>ob. resolveOrderBy (TrimSpace raw) = Inr ob"
  by (cases "resolveOrderBy (TrimSpace raw)") (simp_all add: resolveOrderBy_Inl)

lemma getBooks_valid:
  assumes "validRequest q"
  obtains l off where "resolveLimit (Get q ''limit'') = Inr l"
    "resolveOffset (Get q ''offset'') = Inr off"
    "getBooks db q =
       runQuery db (sqlTemplate (TrimSpace (Get q ''genre'') \<noteq> []) (TrimSpace (Get q ''sort'')))
                   (boundArgs (TrimSpace (Get q ''genre'')) l off)"
proof -
  from assms obtain l off ob where r: "resolveLimit (Get q ''limit'') = Inr l"
    "resolveOffset (Get q ''offset'') = Inr off"
    "resolveOrderBy (TrimSpace (Get q ''sort'')) = Inr ob"
    unfolding validRequest_def
    using resolveLimit_valid resolveOffset_valid resolveOrderBy_valid by blast
  from getBooks_runs[OF r] have
    "getBooks db q =
       runQuery db (sqlTemplate (TrimSpace (Get q ''genre'') \<noteq> []) (TrimSpace (Get q ''sort'')))
                   (boundArgs (TrimSpace (Get q ''genre'')) l off)"
    by (simp add: buildQuery_template[OF r(3)])
  with r(1,2) show thesis by (rule that)
qed

lemma getBooks_invalid:
  assumes "\<not> validRequest q"
  shows "getBooks db q = invalid (Errorf ''invalid limit'')
       \<or> getBooks db q = invalid (Errorf ''invalid offset'')
       \<or> getBooks db q = invalid (Errorf ''invalid sort value'')"
proof (rule getBooks_cases[of q db])
  fix l off ob
  assume "resolveLimit (Get q ''limit'') = Inr l" "resolveOffset (Get q ''offset'') = Inr off"
    "resolveOrderBy (TrimSpace (Get q ''sort'')) = Inr ob"
  then have "validRequest q"
    using resolveLimit_Inl[of "Get q ''limit''" "Errorf ''invalid limit''"]
      resolveOffset_Inl[of "Get q ''offset''" "Errorf ''invalid offset''"]
      resolveOrderBy_Inl[of "Get q ''sort''" "Errorf ''invalid sort value''"]
    by (simp add: validRequest_def)
  with assms show ?thesis by simp
qed simp_all

lemma placeholder_1: "placeholder (Suc 0) = ''$1''"
  by (simp add: placeholder_def Sprintf_d_1)

lemma placeholder_2: "placeholder (Suc (Suc 0)) = ''$2''"
  by (simp add: placeholder_def Sprintf_d_2)

lemma placeholder_3: "placeholder (Suc (Suc (Suc 0))) = ''$3''"
  by (simp add: placeholder_def Sprintf_d_3)

lemma sqlTemplate_clauses:
  "s \<in> set sortValues \<Longrightarrow>
   sqlTemplate (g \<noteq> []) s =
     selectBase @ whereClause g @ orderClause s
       @ '' LIMIT '' @ placeholder (length (boundArgs g l off) - 1)
       @ '' OFFSET '' @ placeholder (length (boundArgs g l off))"
  by (auto simp: sortValues_def sqlTemplate_def selectBase_def whereClause_def orderClause_def
      boundArgs_def placeholder_1 placeholder_2 placeholder_3)


subsection \<open>Running the query\<close>

lemma scanLoop_failure:
  "Inl e \<in> set xs \<Longrightarrow> \<exists>e'. scanLoop xs acc = Inl e'"
proof (induction xs arbitrary: acc)
  case Nil
  then show ?case by simp
next
  case (Cons x xs)
  show ?case
  proof (cases x)
    case (Inl a)
    then show ?thesis by simp
  next
    case (Inr b)
    with Cons.prems have "Inl e \<in> set xs" by auto
    from Cons.IH[OF this] Inr show ?thesis by simp
  qed
qed

lemma runQuery_failure:
  assumes "db query args = (elapsed, Inr rows)"
    and "(\<exists>e. Inl e \<in> set (scans rows)) \<or> rowsErr rows \<noteq> None"
  shows "err (runQuery db query args) \<noteq> None \<and> books (runQuery db query args) = None"
proof (cases "scanLoop (scans rows) None")
  case (Inl e)
  with assms(1) show ?thesis by (simp add: runQuery_def)
next
  case (Inr bs)
  with assms(2) scanLoop_failure[of _ "scans rows" None] have "rowsErr rows \<noteq> None"
    by fastforce
  with Inr assms(1) show ?thesis by (auto simp: runQuery_def)
qed

lemma runQuery_no_rows:
  assumes "db query args = (elapsed, Inr rows)" and "scans rows = []" and "rowsErr rows = None"
  shows "runQuery db query args =
           \<lparr>books = None, queryTimeMs = elapsed, err = None,
            logs = [LogQuery query args elapsed], dbCalls = [(query, args)]\<rparr>"
  using assms by (simp add: runQuery_def)

lemma getBooks_call:
  assumes "dbCalls (getBooks db q) = [(query, args)]"
  shows "getBooks db q = runQuery db query args"
proof (rule getBooks_cases[of q db])
  fix l off ob
  assume "getBooks db q =
         runQuery db (fst (buildQuery (TrimSpace (Get q ''genre'')) ob l off))
                     (snd (buildQuery (TrimSpace (Get q ''genre'')) ob l off))"
  with assms show ?thesis by (simp add: runQuery_dbCalls)
qed (use assms in \<open>simp_all add: dbCalls_invalid\<close>)


subsection \<open>Blank and absent parameters\<close>

lemma leadingSpace_Nil: "leadingSpace [] = 0"
  by (simp add: leadingSpace_def space_encodings_def)

lemma whitespaceOnly_step:
  "leadingSpace s \<noteq> 0 \<Longrightarrow> whitespaceOnly s = whitespaceOnly (drop (leadingSpace s) s)"
  using leadingSpace_Nil by (subst whitespaceOnly.simps) auto

lemma whitespaceOnly_stop: "leadingSpace s = 0 \<Longrightarrow> whitespaceOnly s = (s = [])"
  by (subst whitespaceOnly.simps) simp

lemma whitespaceOnly_TrimLeft: "whitespaceOnly s \<Longrightarrow> TrimLeft s = []"
proof (induction s rule: TrimLeft.induct)
  case (1 s)
  show ?case
  proof (cases "leadingSpace s = 0")
    case True
    with "1.prems" have "s = []" by (simp add: whitespaceOnly_stop)
    then show ?thesis by (simp add: TrimLeft_Nil)
  next
    case False
    with "1.prems" have "whitespaceOnly (drop (leadingSpace s) s)"
      by (simp add: whitespaceOnly_step)
    from "1.IH"[OF False this] False show ?thesis by (simp add: TrimLeft.simps[of s])
  qed
qed

lemma whitespaceOnly_TrimSpace: "whitespaceOnly s \<Longrightarrow> TrimSpace s = []"
  by (simp add: TrimSpace_def whitespaceOnly_TrimLeft TrimRight_Nil)

lemma resolveLimit_empty: "TrimSpace raw = [] \<Longrightarrow> resolveLimit raw = Inr 10"
  by (simp add: resolveLimit_def defaultLimit_def maxLimit_def)

lemma resolveOffset_empty: "TrimSpace raw = [] \<Longrightarrow> resolveOffset raw = Inr 0"
  by (simp add: resolveOffset_def)

lemma Get_present: "q key = Some (v # vs) \<Longrightarrow> Get q key = v"
  by (simp add: Get_def)

lemma Get_removed: "Get (q(key := None)) key = []"
  by (simp add: Get_def)

lemma Get_other: "key' \<noteq> key \<Longrightarrow> Get (q(key := None)) key' = Get q key'"
  by (simp add: Get_def)

lemma getBooks_cong:
  assumes "resolveLimit (Get q ''limit'') = resolveLimit (Get q' ''limit'')"
    and "resolveOffset (Get q ''offset'') = resolveOffset (Get q' ''offset'')"
    and "Get q ''genre'' = Get q' ''genre''"
    and "Get q ''sort'' = Get q' ''sort''"
  shows "getBooks db q = getBooks db q'"
  unfolding getBooks_def assms ..


subsection \<open>Decimal numerals\<close>

lemma parseDigits_append:
  "parseDigits (xs @ ys) a =
     (case parseDigits xs a of None \<Rightarrow> None | Some m \<Rightarrow> parseDigits ys m)"
  by (induction xs arbitrary: a) simp_all

lemma digitChar_digit: "d < 10 \<Longrightarrow> isDigit (digitChar d) \<and> digitVal (digitChar d) = d"
  by (simp add: isDigit_def digitVal_def digitChar_def)

lemma parseDigits_natDecimal: "parseDigits (natDecimal n) 0 = Some n"
proof (induction n rule: natDecimal.induct)
  case (1 n)
  show ?case
  proof (cases "n < 10")
    case True
    then show ?thesis by (simp add: natDecimal.simps[of n] digitChar_digit)
  next
    case False
    have "n mod 10 < 10" by simp
    with False "1.IH" show ?thesis
      by (simp add: natDecimal.simps[of n] parseDigits_append digitChar_digit)
  qed
qed

lemma natDecimal_digits: "c \<in> set (natDecimal n) \<Longrightarrow> isDigit c"
proof (induction n rule: natDecimal.induct)
  case (1 n)
  show ?case
  proof (cases "n < 10")
    case True
    with "1.prems" show ?thesis by (simp add: natDecimal.simps[of n] digitChar_digit)
  next
    case False
    have "n mod 10 < 10" by simp
    with False "1.IH" "1.prems" show ?thesis
      by (auto simp: natDecimal.simps[of n] digitChar_digit)
  qed
qed

lemma natDecimal_nonempty: "natDecimal n \<noteq> []"
  by (subst natDecimal.simps) simp

lemma Atoi_digits:
  assumes "s \<noteq> []" and "\<forall>c \<in> set s. isDigit c" and "parseDigits s 0 = Some n" and "n < 2 ^ 63"
  shows "Atoi s = Some (int n)"
proof -
  from assms(1) obtain c cs where s: "s = c # cs" by (cases s) auto
  with assms(2) have "isDigit c" by simp
  then have "c \<noteq> CHR ''-''" "c \<noteq> CHR ''+''" by (auto simp: isDigit_def)
  moreover have "int n < 2 ^ 63" using assms(4) by (simp flip: of_nat_less_iff)
  moreover have "- (2 ^ 63) \<le> int n" by (rule order_trans[of _ 0]) simp_all
  ultimately show ?thesis using assms(3) s by (simp add: Atoi_def)
qed

lemma Atoi_natDecimal: "n < 2 ^ 63 \<Longrightarrow> Atoi (natDecimal n) = Some (int n)"
  by (rule Atoi_digits) (simp_all add: natDecimal_nonempty natDecimal_digits parseDigits_natDecimal)

lemma encoding_ends: "e \<in> set space_encodings \<Longrightarrow> e \<noteq> [] \<and> \<not> isDigit (hd e) \<and> \<not> isDigit (last e)"
  by (auto simp: space_encodings_def isDigit_def)

lemma leadingSpace_digit:
  assumes "s \<noteq> []" and "isDigit (hd s)"
  shows "leadingSpace s = 0"
proof -
  have "\<not> (\<exists>e \<in> set space_encodings. take (length e) s = e)"
  proof
    assume "\<exists>e \<in> set space_encodings. take (length e) s = e"
    then obtain e where e: "e \<in> set space_encodings" "take (length e) s = e" by blast
    from encoding_ends[OF e(1)] have "e \<noteq> []" "\<not> isDigit (hd e)" by simp_all
    moreover from e(2) \<open>e \<noteq> []\<close> assms(1) have "hd e = hd s"
      by (metis hd_take length_greater_0_conv)
    ultimately show False using assms(2) by simp
  qed
  then have "find (\<lambda>e. take (length e) s = e) space_encodings = None"
    by (simp add: find_None_iff)
  then show ?thesis by (simp add: leadingSpace_def)
qed

lemma trailingSpace_digit:
  assumes "s \<noteq> []" and "isDigit (last s)"
  shows "trailingSpace s = 0"
proof -
  have "\<not> (\<exists>e \<in> set space_encodings. drop (length s - length e) s = e)"
  proof
    assume "\<exists>e \<in> set space_encodings. drop (length s - length e) s = e"
    then obtain e where e: "e \<in> set space_encodings" "drop (length s - length e) s = e" by blast
    from encoding_ends[OF e(1)] have ne: "e \<noteq> []" and nd: "\<not> isDigit (last e)" by simp_all
    from e(2) ne have "length s - length e < length s"
      by (metis drop_eq_Nil not_le)
    then have "last (drop (length s - length e) s) = last s" by (rule last_drop)
    with e(2) nd assms(2) show False by simp
  qed
  then have "find (\<lambda>e. drop (length s - length e) s = e) space_encodings = None"
    by (simp add: find_None_iff)
  then show ?thesis by (simp add: trailingSpace_def)
qed

lemma TrimSpace_digits:
  assumes "s \<noteq> []" and "\<forall>c \<in> set s. isDigit c"
  shows "TrimSpace s = s"
proof -
  from assms have "isDigit (hd s)" "isDigit (last s)" by simp_all
  with assms(1) have "leadingSpace s = 0" "trailingSpace s = 0"
    by (simp_all add: leadingSpace_digit trailingSpace_digit)
  then show ?thesis by (simp add: TrimSpace_def TrimLeft.simps[of s] TrimRight.simps[of s])
qed

lemma TrimSpace_natDecimal: "TrimSpace (natDecimal n) = natDecimal n"
  by (rule TrimSpace_digits) (simp_all add: natDecimal_nonempty natDecimal_digits)

lemma Sprintf_d_nonneg: "0 \<le> v \<Longrightarrow> Sprintf_d v = natDecimal (nat v)"
  by (simp add: Sprintf_d_def)

lemma decimal_parses:
  assumes "0 \<le> v" and "v < 2 ^ 63"
  shows "TrimSpace (Sprintf_d v) = Sprintf_d v" and "Sprintf_d v \<noteq> []"
    and "Atoi (Sprintf_d v) = Some v"
proof -
  from assms have "nat v < 2 ^ 63" by (simp add: nat_less_iff)
  from Atoi_natDecimal[OF this] assms(1) show "Atoi (Sprintf_d v) = Some v"
    by (simp add: Sprintf_d_nonneg)
qed (simp_all add: Sprintf_d_nonneg assms TrimSpace_natDecimal natDecimal_nonempty)



subsection \<open>The resolved limit and offset\<close>

lemma resolveLimit_parsed:
  assumes "Atoi (TrimSpace raw) = Some v" and "0 < v"
  shows "resolveLimit raw = Inr (if v > 100 then 100 else v)"
proof -
  from assms(1) have "TrimSpace raw \<noteq> []" using Atoi_Nil by auto
  with assms show ?thesis by (simp add: resolveLimit_def Let_def maxLimit_def)
qed

lemma resolveOffset_parsed:
  assumes "Atoi (TrimSpace raw) = Some v" and "0 \<le> v"
  shows "resolveOffset raw = Inr v"
proof -
  from assms(1) have "TrimSpace raw \<noteq> []" using Atoi_Nil by auto
  with assms show ?thesis by (simp add: resolveOffset_def Let_def)
qed

lemma boundArgs_limit:
  "boundTo (boundArgs g l off) (length (boundArgs g l off) - 1) = Some (ArgInt l)"
  by (simp add: boundArgs_def boundTo_def)

lemma boundArgs_offset:
  "boundTo (boundArgs g l off) (length (boundArgs g l off)) = Some (ArgInt off)"
  by (simp add: boundArgs_def boundTo_def)

lemma getBooks_bound:
  assumes "c \<in> set (dbCalls (getBooks db q))"
  obtains l off where "resolveLimit (Get q ''limit'') = Inr l"
    "resolveOffset (Get q ''offset'') = Inr off"
    "snd c = boundArgs (TrimSpace (Get q ''genre'')) l off"
proof (rule getBooks_cases[of q db])
  fix l off ob
  assume r: "resolveLimit (Get q ''limit'') = Inr l" "resolveOffset (Get q ''offset'') = Inr off"
    "resolveOrderBy (TrimSpace (Get q ''sort'')) = Inr ob"
    "getBooks db q =
         runQuery db (fst (buildQuery (TrimSpace (Get q ''genre'')) ob l off))
                     (snd (buildQuery (TrimSpace (Get q ''genre'')) ob l off))"
  with assms have "snd c = boundArgs (TrimSpace (Get q ''genre'')) l off"
    by (simp add: runQuery_dbCalls buildQuery_template[OF r(3)])
  with r(1,2) show thesis by (rule that)
qed (use assms in \<open>simp_all add: dbCalls_invalid\<close>)


lemma getBooks_sent:
  assumes "c \<in> set (dbCalls (getBooks db q))"
  obtains l off where "resolveLimit (Get q ''limit'') = Inr l"
    "resolveOffset (Get q ''offset'') = Inr off"
    "c = (sqlTemplate (TrimSpace (Get q ''genre'') \<noteq> []) (TrimSpace (Get q ''sort'')),
          boundArgs (TrimSpace (Get q ''genre'')) l off)"
proof (rule getBooks_cases[of q db])
  fix l off ob
  assume r: "resolveLimit (Get q ''limit'') = Inr l" "resolveOffset (Get q ''offset'') = Inr off"
    "resolveOrderBy (TrimSpace (Get q ''sort'')) = Inr ob"
    "getBooks db q =
         runQuery db (fst (buildQuery (TrimSpace (Get q ''genre'')) ob l off))
                     (snd (buildQuery (TrimSpace (Get q ''genre'')) ob l off))"
  with assms have
    "c = (sqlTemplate (TrimSpace (Get q ''genre'') \<noteq> []) (TrimSpace (Get q ''sort'')),
          boundArgs (TrimSpace (Get q ''genre'')) l off)"
    by (simp add: runQuery_dbCalls buildQuery_template[OF r(3)])
  with r(1,2) show thesis by (rule that)
qed (use assms in \<open>simp_all add: dbCalls_invalid\<close>)

subsection \<open>Statements without an ordering\<close>

lemma no_order_by:
  "\<not> sublist ''ORDER BY'' (sqlTemplate b [])"
proof (cases b)
  case True
  have "\<not> sublist ''ORDER BY'' ''SELECT id, title, price, genre FROM books WHERE genre = $1 LIMIT $2 OFFSET $3''"
    by code_simp
  with True show ?thesis by (simp add: sqlTemplate_def)
next
  case False
  have "\<not> sublist ''ORDER BY'' ''SELECT id, title, price, genre FROM books LIMIT $1 OFFSET $2''"
    by code_simp
  with False show ?thesis by (simp add: sqlTemplate_def)
qed


section \<open>The claims\<close>

text \<open>
  Claim C1. The statement text sent to the database is one of six fixed texts, chosen by
  whether the trimmed genre is non-empty and by the trimmed sort value alone; the genre,
  the limit and the offset appear only in the list of bound arguments.
\<close>

theorem sql_text_is_fixed_template:
  "\<forall>c \<in> set (dbCalls (getBooks db q)).
      fst c = sqlTemplate (TrimSpace (Get q ''genre'') \<noteq> []) (TrimSpace (Get q ''sort''))
      \<and> fst c \<in> set sqlTemplates
      \<and> (\<exists>limit offset.
            resolveLimit (Get q ''limit'') = Inr limit
            \<and> resolveOffset (Get q ''offset'') = Inr offset
            \<and> snd c = boundArgs (TrimSpace (Get q ''genre'')) limit offset)"
proof
  fix c
  assume "c \<in> set (dbCalls (getBooks db q))"
  then show "fst c = sqlTemplate (TrimSpace (Get q ''genre'') \<noteq> []) (TrimSpace (Get q ''sort''))
      \<and> fst c \<in> set sqlTemplates
      \<and> (\<exists>limit offset.
            resolveLimit (Get q ''limit'') = Inr limit
            \<and> resolveOffset (Get q ''offset'') = Inr offset
            \<and> snd c = boundArgs (TrimSpace (Get q ''genre'')) limit offset)"
  proof (rule getBooks_sent)
    fix l off
    assume "resolveLimit (Get q ''limit'') = Inr l" "resolveOffset (Get q ''offset'') = Inr off"
      "c = (sqlTemplate (TrimSpace (Get q ''genre'') \<noteq> []) (TrimSpace (Get q ''sort'')),
            boundArgs (TrimSpace (Get q ''genre'')) l off)"
    then show ?thesis by (simp add: sqlTemplate_in_templates)
  qed
qed

theorem sql_text_is_fixed_template_witness:
  "(''SELECT id, title, price, genre FROM books WHERE genre = $1 ORDER BY price DESC LIMIT $2 OFFSET $3'',
    [ArgString ''Fiction'', ArgInt 100, ArgInt 20]) \<in> set (dbCalls (getBooks dbTwoRows reqFull))
   \<and> sqlTemplate (TrimSpace (Get reqFull ''genre'') \<noteq> []) (TrimSpace (Get reqFull ''sort''))
       = ''SELECT id, title, price, genre FROM books WHERE genre = $1 ORDER BY price DESC LIMIT $2 OFFSET $3''
   \<and> ''SELECT id, title, price, genre FROM books WHERE genre = $1 ORDER BY price DESC LIMIT $2 OFFSET $3''
       \<in> set sqlTemplates
   \<and> resolveLimit (Get reqFull ''limit'') = Inr 100
   \<and> resolveOffset (Get reqFull ''offset'') = Inr 20
   \<and> boundArgs (TrimSpace (Get reqFull ''genre'')) 100 20
       = [ArgString ''Fiction'', ArgInt 100, ArgInt 20]"
proof -
  let ?sql = "''SELECT id, title, price, genre FROM books WHERE genre = $1 ORDER BY price DESC LIMIT $2 OFFSET $3''"
  let ?args = "[ArgString ''Fiction'', ArgInt 100, ArgInt 20]"
  have c: "(?sql, ?args) \<in> set (dbCalls (getBooks dbTwoRows reqFull))"
    by code_simp
  have g: "TrimSpace (Get reqFull ''genre'') = ''Fiction''"
    by code_simp
  from sql_text_is_fixed_template[of dbTwoRows reqFull, THEN bspec, OF c] c show ?thesis
    by (auto simp: g boundArgs_def)
qed

text \<open>
  Claim C4. For valid parameters the statement is the base text, then the WHERE clause
  iff the trimmed genre is non-empty, then the ORDER BY clause that the sort value selects
  (none for the empty value), then LIMIT and OFFSET with their placeholders; and the
  placeholders are numbered as the arguments are bound: the genre first when there is one,
  then the limit, then the offset.
\<close>

theorem statement_built_clause_by_clause:
  assumes "resolveLimit (Get q ''limit'') = Inr limit"
    and "resolveOffset (Get q ''offset'') = Inr offset"
    and "TrimSpace (Get q ''sort'') \<in> set sortValues"
  shows "\<exists>args.
           dbCalls (getBooks db q) =
             [(selectBase @ whereClause (TrimSpace (Get q ''genre''))
                 @ orderClause (TrimSpace (Get q ''sort''))
                 @ '' LIMIT '' @ placeholder (length args - 1)
                 @ '' OFFSET '' @ placeholder (length args), args)]
           \<and> args = (if TrimSpace (Get q ''genre'') \<noteq> []
                      then [ArgString (TrimSpace (Get q ''genre''))] else [])
                     @ [ArgInt limit, ArgInt offset]
           \<and> (TrimSpace (Get q ''genre'') \<noteq> []
                \<longrightarrow> boundTo args 1 = Some (ArgString (TrimSpace (Get q ''genre''))))
           \<and> boundTo args (length args - 1) = Some (ArgInt limit)
           \<and> boundTo args (length args) = Some (ArgInt offset)"
proof -
  from assms(3) obtain ob where ob: "resolveOrderBy (TrimSpace (Get q ''sort'')) = Inr ob"
    using resolveOrderBy_valid[of "Get q ''sort''"] by (auto simp: sortInvalid_def)
  let ?g = "TrimSpace (Get q ''genre'')"
  have "dbCalls (getBooks db q) =
          [(sqlTemplate (?g \<noteq> []) (TrimSpace (Get q ''sort'')), boundArgs ?g limit offset)]"
    by (simp add: getBooks_runs[OF assms(1,2) ob] buildQuery_template[OF ob] runQuery_dbCalls)
  then show ?thesis
    by (intro exI[of _ "boundArgs ?g limit offset"])
       (simp add: sqlTemplate_clauses[OF assms(3), of ?g limit offset],
        simp add: boundArgs_def boundTo_def)
qed

theorem statement_built_clause_by_clause_witness:
  "resolveLimit (Get reqFull ''limit'') = Inr 100
   \<and> resolveOffset (Get reqFull ''offset'') = Inr 20
   \<and> TrimSpace (Get reqFull ''sort'') \<in> set sortValues
   \<and> dbCalls (getBooks dbTwoRows reqFull) =
       [(''SELECT id, title, price, genre FROM books WHERE genre = $1 ORDER BY price DESC LIMIT $2 OFFSET $3'',
         [ArgString ''Fiction'', ArgInt 100, ArgInt 20])]
   \<and> boundTo [ArgString ''Fiction'', ArgInt 100, ArgInt 20] 1 = Some (ArgString ''Fiction'')
   \<and> boundTo [ArgString ''Fiction'', ArgInt 100, ArgInt 20] 2 = Some (ArgInt 100)
   \<and> boundTo [ArgString ''Fiction'', ArgInt 100, ArgInt 20] 3 = Some (ArgInt 20)"
proof -
  have h1: "resolveLimit (Get reqFull ''limit'') = Inr 100" by code_simp
  have h2: "resolveOffset (Get reqFull ''offset'') = Inr 20" by code_simp
  have h3: "TrimSpace (Get reqFull ''sort'') \<in> set sortValues" by code_simp
  have g: "TrimSpace (Get reqFull ''genre'') = ''Fiction''" by code_simp
  have s: "TrimSpace (Get reqFull ''sort'') = ''price_desc''" by code_simp
  from statement_built_clause_by_clause[OF h1 h2 h3, of dbTwoRows] h1 h2 h3
  show ?thesis
    by (auto simp: g s placeholder_2 placeholder_3 selectBase_def whereClause_def orderClause_def boundTo_def)
qed

text \<open>
  Claim C5. When the limit, the offset or the sort parameter fails validation,
  \<^verbatim>\<open>getBooks\<close> returns one of the three parameter errors, no books and an elapsed
  time of 0, and no statement has been sent to the database.
\<close>

theorem validation_failure_before_query:
  assumes "limitInvalid (Get q ''limit'') \<or> offsetInvalid (Get q ''offset'')
           \<or> sortInvalid (Get q ''sort'')"
  shows "(err (getBooks db q) = Some (Errorf ''invalid limit'')
          \<or> err (getBooks db q) = Some (Errorf ''invalid offset'')
          \<or> err (getBooks db q) = Some (Errorf ''invalid sort value''))
         \<and> books (getBooks db q) = None
         \<and> dbCalls (getBooks db q) = []
         \<and> queryTimeMs (getBooks db q) = 0"
proof -
  from assms have "\<not> validRequest q" by (auto simp: validRequest_def)
  from getBooks_invalid[OF this, of db] show ?thesis
    by (auto simp: invalid_sel dbCalls_invalid)
qed

theorem validation_failure_before_query_witness:
  "limitInvalid (Get reqLimitZero ''limit'')
   \<and> err (getBooks dbTwoRows reqLimitZero) = Some (Errorf ''invalid limit'')
   \<and> offsetInvalid (Get reqOffsetNegative ''offset'')
   \<and> err (getBooks dbTwoRows reqOffsetNegative) = Some (Errorf ''invalid offset'')
   \<and> sortInvalid (Get reqSortTitle ''sort'')
   \<and> err (getBooks dbTwoRows reqSortTitle) = Some (Errorf ''invalid sort value'')
   \<and> books (getBooks dbTwoRows reqLimitZero) = None
   \<and> dbCalls (getBooks dbTwoRows reqLimitZero) = []
   \<and> queryTimeMs (getBooks dbTwoRows reqLimitZero) = 0"
proof -
  have h1: "limitInvalid (Get reqLimitZero ''limit'')" by code_simp
  have h2: "offsetInvalid (Get reqOffsetNegative ''offset'')" by code_simp
  have h3: "sortInvalid (Get reqSortTitle ''sort'')" by code_simp
  have e1: "err (getBooks dbTwoRows reqLimitZero) = Some (Errorf ''invalid limit'')" by code_simp
  have e2: "err (getBooks dbTwoRows reqOffsetNegative) = Some (Errorf ''invalid offset'')" by code_simp
  have e3: "err (getBooks dbTwoRows reqSortTitle) = Some (Errorf ''invalid sort value'')" by code_simp
  from h1 have "limitInvalid (Get reqLimitZero ''limit'') \<or> offsetInvalid (Get reqLimitZero ''offset'')
           \<or> sortInvalid (Get reqLimitZero ''sort'')" by simp
  from validation_failure_before_query[OF this, of dbTwoRows] h1 h2 h3 e1 e2 e3
  show ?thesis by simp
qed

text \<open>
  Claim C7. In an execution where the statement was sent and gave a cursor, if the
  \<^verbatim>\<open>Scan\<close> of some row fails, or the cursor reports an error once its rows are
  exhausted, \<^verbatim>\<open>getBooks\<close> returns an error and the nil slice: no prefix of the rows
  decoded so far.
\<close>

theorem failed_row_gives_no_books:
  assumes "dbCalls (getBooks db q) = [(query, args)]"
    and "db query args = (elapsed, Inr rows)"
    and "(\<exists>e. Inl e \<in> set (scans rows)) \<or> rowsErr rows \<noteq> None"
  shows "err (getBooks db q) \<noteq> None \<and> books (getBooks db q) = None"
  using runQuery_failure[of db query args elapsed rows] assms(2,3) getBooks_call[OF assms(1)]
  by simp

theorem failed_row_gives_no_books_witness:
  "dbCalls (getBooks dbBadRow reqDefault) =
     [(''SELECT id, title, price, genre FROM books LIMIT $1 OFFSET $2'', [ArgInt 10, ArgInt 0])]
   \<and> Inl (SqlError ''Scan error on column index 1'')
       \<in> set [Inr book1, Inl (SqlError ''Scan error on column index 1'')]
   \<and> err (getBooks dbBadRow reqDefault) \<noteq> None \<and> books (getBooks dbBadRow reqDefault) = None
   \<and> dbCalls (getBooks dbCursorError reqDefault) =
     [(''SELECT id, title, price, genre FROM books LIMIT $1 OFFSET $2'', [ArgInt 10, ArgInt 0])]
   \<and> err (getBooks dbCursorError reqDefault) \<noteq> None
   \<and> books (getBooks dbCursorError reqDefault) = None"
proof -
  let ?sql = "''SELECT id, title, price, genre FROM books LIMIT $1 OFFSET $2''"
  let ?args = "[ArgInt 10, ArgInt 0]"
  let ?bad = "\<lparr>scans = [Inr book1, Inl (SqlError ''Scan error on column index 1'')],
              rowsErr = None\<rparr>"
  let ?cur = "\<lparr>scans = [Inr book1], rowsErr = Some (SqlError ''unexpected EOF'')\<rparr>"
  have c1: "dbCalls (getBooks dbBadRow reqDefault) = [(?sql, ?args)]" by code_simp
  have d1: "dbBadRow ?sql ?args = (5, Inr ?bad)" by (simp add: dbBadRow_def)
  have f1: "(\<exists>e. Inl e \<in> set (scans ?bad)) \<or> rowsErr ?bad \<noteq> None" by auto
  have c2: "dbCalls (getBooks dbCursorError reqDefault) = [(?sql, ?args)]" by code_simp
  have d2: "dbCursorError ?sql ?args = (5, Inr ?cur)" by (simp add: dbCursorError_def)
  have f2: "(\<exists>e. Inl e \<in> set (scans ?cur)) \<or> rowsErr ?cur \<noteq> None" by simp
  from failed_row_gives_no_books[OF c1 d1 f1] failed_row_gives_no_books[OF c2 d2 f2] c1 c2
  show ?thesis by simp
qed

text \<open>
  Claim C10. A limit or an offset that is present but consists of white space only is
  treated as absent: the default is taken (limit 10, offset 0), and the whole call behaves
  as it does on the request without that parameter.
\<close>

theorem blank_limit_or_offset_is_absent:
  "(\<forall>v vs. q ''limit'' = Some (v # vs) \<and> whitespaceOnly v \<longrightarrow>
       resolveLimit (Get q ''limit'') = Inr 10
       \<and> getBooks db q = getBooks db (q(''limit'' := None)))
   \<and> (\<forall>v vs. q ''offset'' = Some (v # vs) \<and> whitespaceOnly v \<longrightarrow>
       resolveOffset (Get q ''offset'') = Inr 0
       \<and> getBooks db q = getBooks db (q(''offset'' := None)))"
proof (intro conjI allI impI)
  fix v vs
  assume a: "q ''limit'' = Some (v # vs) \<and> whitespaceOnly v"
  then have t: "TrimSpace (Get q ''limit'') = []"
    by (simp add: Get_present whitespaceOnly_TrimSpace)
  then show "resolveLimit (Get q ''limit'') = Inr 10" by (rule resolveLimit_empty)
  show "getBooks db q = getBooks db (q(''limit'' := None))"
    by (rule getBooks_cong)
       (simp_all add: Get_removed Get_other resolveLimit_empty[OF t]
          resolveLimit_empty[OF TrimSpace_Nil])
next
  fix v vs
  assume a: "q ''offset'' = Some (v # vs) \<and> whitespaceOnly v"
  then have t: "TrimSpace (Get q ''offset'') = []"
    by (simp add: Get_present whitespaceOnly_TrimSpace)
  then show "resolveOffset (Get q ''offset'') = Inr 0" by (rule resolveOffset_empty)
  show "getBooks db q = getBooks db (q(''offset'' := None))"
    by (rule getBooks_cong)
       (simp_all add: Get_removed Get_other resolveOffset_empty[OF t]
          resolveOffset_empty[OF TrimSpace_Nil])
qed

theorem blank_limit_or_offset_is_absent_witness:
  "reqBlank ''limit'' = Some ['' ''] \<and> whitespaceOnly '' ''
   \<and> resolveLimit (Get reqBlank ''limit'') = Inr 10
   \<and> getBooks dbTwoRows reqBlank = getBooks dbTwoRows (reqBlank(''limit'' := None))
   \<and> reqBlank ''offset'' = Some [[CHR 0x09, CHR 0xC2, CHR 0xA0]]
   \<and> whitespaceOnly [CHR 0x09, CHR 0xC2, CHR 0xA0]
   \<and> resolveOffset (Get reqBlank ''offset'') = Inr 0
   \<and> getBooks dbTwoRows reqBlank = getBooks dbTwoRows (reqBlank(''offset'' := None))
   \<and> dbCalls (getBooks dbTwoRows reqBlank) =
       [(''SELECT id, title, price, genre FROM books WHERE genre = $1 LIMIT $2 OFFSET $3'',
         [ArgString ''Fiction'', ArgInt 10, ArgInt 0])]"
proof -
  have h1: "reqBlank ''limit'' = Some ['' '']" by (simp add: reqBlank_def)
  have w1: "whitespaceOnly '' ''" by code_simp
  have h2: "reqBlank ''offset'' = Some [[CHR 0x09, CHR 0xC2, CHR 0xA0]]" by (simp add: reqBlank_def)
  have w2: "whitespaceOnly [CHR 0x09, CHR 0xC2, CHR 0xA0]" by code_simp
  have c: "dbCalls (getBooks dbTwoRows reqBlank) =
       [(''SELECT id, title, price, genre FROM books WHERE genre = $1 LIMIT $2 OFFSET $3'',
         [ArgString ''Fiction'', ArgInt 10, ArgInt 0])]" by code_simp
  from blank_limit_or_offset_is_absent[of reqBlank dbTwoRows] h1 w1 h2 w2 c
  show ?thesis by blast
qed

text \<open>
  Claim C2. The limit that \<^verbatim>\<open>getBooks\<close> resolves is 10 when the parameter is absent
  or empty after trimming; it is \<open>v\<close> when the trimmed value parses
  (\<^verbatim>\<open>strconv.Atoi\<close>) as \<open>v\<close> with \<open>0 < v \<le> 100\<close>, and 100 when it parses as a
  larger \<open>v\<close>; otherwise \<^verbatim>\<open>getBooks\<close> fails with the error \<^verbatim>\<open>invalid limit\<close>.
  In particular the decimal numeral of any positive \<open>v\<close> in the range of \<^verbatim>\<open>int\<close>
  resolves to \<open>v\<close>, or to 100. The resolved limit is what a statement that is sent binds
  to its last placeholder but one.
\<close>

theorem limit_resolution:
  "(q ''limit'' = None \<or> TrimSpace (Get q ''limit'') = [] \<longrightarrow>
      resolveLimit (Get q ''limit'') = Inr 10)
   \<and> (\<forall>v. Atoi (TrimSpace (Get q ''limit'')) = Some v \<and> 0 < v \<and> v \<le> 100 \<longrightarrow>
         resolveLimit (Get q ''limit'') = Inr v)
   \<and> (\<forall>v. Atoi (TrimSpace (Get q ''limit'')) = Some v \<and> 100 < v \<longrightarrow>
         resolveLimit (Get q ''limit'') = Inr 100)
   \<and> (limitInvalid (Get q ''limit'') \<longrightarrow> getBooks db q = invalid (Errorf ''invalid limit''))
   \<and> (\<forall>v. 0 < v \<and> v < 2 ^ 63 \<and> Get q ''limit'' = Sprintf_d v \<longrightarrow>
         resolveLimit (Get q ''limit'') = Inr (if v > 100 then 100 else v))
   \<and> (\<forall>l c. resolveLimit (Get q ''limit'') = Inr l \<and> c \<in> set (dbCalls (getBooks db q)) \<longrightarrow>
         boundTo (snd c) (length (snd c) - 1) = Some (ArgInt l))"
proof (intro conjI allI impI)
  assume "q ''limit'' = None \<or> TrimSpace (Get q ''limit'') = []"
  then have "TrimSpace (Get q ''limit'') = []" by (auto simp: Get_absent TrimSpace_Nil)
  then show "resolveLimit (Get q ''limit'') = Inr 10" by (rule resolveLimit_empty)
next
  fix v
  assume "Atoi (TrimSpace (Get q ''limit'')) = Some v \<and> 0 < v \<and> v \<le> 100"
  then show "resolveLimit (Get q ''limit'') = Inr v" by (simp add: resolveLimit_parsed)
next
  fix v
  assume "Atoi (TrimSpace (Get q ''limit'')) = Some v \<and> 100 < v"
  then show "resolveLimit (Get q ''limit'') = Inr 100" by (simp add: resolveLimit_parsed)
next
  assume "limitInvalid (Get q ''limit'')"
  then have "resolveLimit (Get q ''limit'') = Inl (Errorf ''invalid limit'')"
    by (simp add: resolveLimit_Inl)
  then show "getBooks db q = invalid (Errorf ''invalid limit'')" by (rule getBooks_limit_fails)
next
  fix v :: int
  assume a: "0 < v \<and> v < 2 ^ 63 \<and> Get q ''limit'' = Sprintf_d v"
  then have "Atoi (TrimSpace (Get q ''limit'')) = Some v"
    by (simp add: decimal_parses)
  with a show "resolveLimit (Get q ''limit'') = Inr (if v > 100 then 100 else v)"
    by (simp only: resolveLimit_parsed)
next
  fix l c
  assume a: "resolveLimit (Get q ''limit'') = Inr l \<and> c \<in> set (dbCalls (getBooks db q))"
  then have "c \<in> set (dbCalls (getBooks db q))" by simp
  then show "boundTo (snd c) (length (snd c) - 1) = Some (ArgInt l)"
  proof (rule getBooks_bound)
    fix l' off
    assume "resolveLimit (Get q ''limit'') = Inr l'"
      "snd c = boundArgs (TrimSpace (Get q ''genre'')) l' off"
    with a have "snd c = boundArgs (TrimSpace (Get q ''genre'')) l off" by simp
    then show ?thesis by (simp only: boundArgs_limit)
  qed
qed

theorem limit_resolution_witness:
  "reqDefault ''limit'' = None \<and> resolveLimit (Get reqDefault ''limit'') = Inr 10
   \<and> Atoi (TrimSpace (Get reqSmall ''limit'')) = Some 25
   \<and> resolveLimit (Get reqSmall ''limit'') = Inr 25
   \<and> Atoi (TrimSpace (Get reqFull ''limit'')) = Some 500
   \<and> resolveLimit (Get reqFull ''limit'') = Inr 100
   \<and> limitInvalid (Get reqLimitZero ''limit'')
   \<and> getBooks dbTwoRows reqLimitZero = invalid (Errorf ''invalid limit'')
   \<and> Get reqSmall ''limit'' = Sprintf_d 25
   \<and> (''SELECT id, title, price, genre FROM books WHERE genre = $1 ORDER BY price DESC LIMIT $2 OFFSET $3'',
       [ArgString ''Fiction'', ArgInt 100, ArgInt 20]) \<in> set (dbCalls (getBooks dbTwoRows reqFull))
   \<and> boundTo [ArgString ''Fiction'', ArgInt 100, ArgInt 20] 2 = Some (ArgInt 100)"
proof -
  have h1: "reqDefault ''limit'' = None" by (simp add: reqDefault_def)
  have h2: "Atoi (TrimSpace (Get reqSmall ''limit'')) = Some 25" by code_simp
  have h3: "Atoi (TrimSpace (Get reqFull ''limit'')) = Some 500" by code_simp
  have h4: "limitInvalid (Get reqLimitZero ''limit'')" by code_simp
  have h5: "Get reqSmall ''limit'' = Sprintf_d 25" by code_simp
  let ?sql = "''SELECT id, title, price, genre FROM books WHERE genre = $1 ORDER BY price DESC LIMIT $2 OFFSET $3''"
  let ?args = "[ArgString ''Fiction'', ArgInt 100, ArgInt 20]"
  have h6: "(?sql, ?args) \<in> set (dbCalls (getBooks dbTwoRows reqFull))"
    by code_simp
  have r1: "resolveLimit (Get reqDefault ''limit'') = Inr 10"
    by (rule limit_resolution[of reqDefault dbTwoRows, THEN conjunct1, rule_format])
       (simp add: h1)
  have r2: "resolveLimit (Get reqSmall ''limit'') = Inr 25"
    by (rule limit_resolution[of reqSmall dbTwoRows, THEN conjunct2, THEN conjunct1,
          rule_format, of 25]) (simp add: h2)
  have r3: "resolveLimit (Get reqFull ''limit'') = Inr 100"
    by (rule limit_resolution[of reqFull dbTwoRows, THEN conjunct2, THEN conjunct2,
          THEN conjunct1, rule_format, of 500]) (simp add: h3)
  have r4: "getBooks dbTwoRows reqLimitZero = invalid (Errorf ''invalid limit'')"
    by (rule limit_resolution[of reqLimitZero dbTwoRows, THEN conjunct2, THEN conjunct2,
          THEN conjunct2, THEN conjunct1, rule_format]) (rule h4)
  have "boundTo (snd (?sql, ?args)) (length (snd (?sql, ?args)) - 1) = Some (ArgInt 100)"
    by (rule limit_resolution[of reqFull dbTwoRows, THEN conjunct2, THEN conjunct2,
          THEN conjunct2, THEN conjunct2, THEN conjunct2, rule_format, of 100])
       (intro conjI r3 h6)
  then have r5: "boundTo ?args 2 = Some (ArgInt 100)" by (simp add: numeral_2_eq_2)
  show ?thesis by (intro conjI h1 r1 h2 r2 h3 r3 h4 r4 h5 h6 r5)
qed

text \<open>
  Claim C9, as far as it holds. The request with \<^verbatim>\<open>limit=abc\<close> and
  \<^verbatim>\<open>offset=-1\<close> has an offset that does not parse as a non-negative integer, and
  \<^verbatim>\<open>getBooks\<close> fails on it with \<^verbatim>\<open>invalid limit\<close>, not with
  \<^verbatim>\<open>invalid offset\<close>: the limit is validated first, and its early return ends the call.
\<close>

theorem offset_rejected_counterexample:
  "offsetInvalid (Get reqBadLimitBadOffset ''offset'')
   \<and> err (getBooks dbTwoRows reqBadLimitBadOffset) = Some (Errorf ''invalid limit'')
   \<and> err (getBooks dbTwoRows reqBadLimitBadOffset) \<noteq> Some (Errorf ''invalid offset'')"
proof -
  have "offsetInvalid (Get reqBadLimitBadOffset ''offset'')" by code_simp
  moreover have "err (getBooks dbTwoRows reqBadLimitBadOffset) = Some (Errorf ''invalid limit'')"
    by code_simp
  ultimately show ?thesis by simp
qed

text \<open>
  Claim C9, amended. The offset that \<^verbatim>\<open>getBooks\<close> resolves is 0 when the parameter is
  absent or empty after trimming, and \<open>v\<close> when the trimmed value parses as a
  non-negative \<open>v\<close>; when it does not, and the limit has passed its validation,
  \<^verbatim>\<open>getBooks\<close> fails with the error \<^verbatim>\<open>invalid offset\<close>. The resolved offset is
  what a statement that is sent binds to its last placeholder.
\<close>

theorem offset_resolution:
  "(q ''offset'' = None \<or> TrimSpace (Get q ''offset'') = [] \<longrightarrow>
      resolveOffset (Get q ''offset'') = Inr 0)
   \<and> (\<forall>v. Atoi (TrimSpace (Get q ''offset'')) = Some v \<and> 0 \<le> v \<longrightarrow>
         resolveOffset (Get q ''offset'') = Inr v)
   \<and> (offsetInvalid (Get q ''offset'') \<and> \<not> limitInvalid (Get q ''limit'') \<longrightarrow>
         getBooks db q = invalid (Errorf ''invalid offset''))
   \<and> (\<forall>v. 0 \<le> v \<and> v < 2 ^ 63 \<and> Get q ''offset'' = Sprintf_d v \<longrightarrow>
         resolveOffset (Get q ''offset'') = Inr v)
   \<and> (\<forall>off c. resolveOffset (Get q ''offset'') = Inr off \<and> c \<in> set (dbCalls (getBooks db q)) \<longrightarrow>
         boundTo (snd c) (length (snd c)) = Some (ArgInt off))"
proof (intro conjI allI impI)
  assume "q ''offset'' = None \<or> TrimSpace (Get q ''offset'') = []"
  then have "TrimSpace (Get q ''offset'') = []" by (auto simp: Get_absent TrimSpace_Nil)
  then show "resolveOffset (Get q ''offset'') = Inr 0" by (rule resolveOffset_empty)
next
  fix v
  assume "Atoi (TrimSpace (Get q ''offset'')) = Some v \<and> 0 \<le> v"
  then show "resolveOffset (Get q ''offset'') = Inr v" by (simp add: resolveOffset_parsed)
next
  assume a: "offsetInvalid (Get q ''offset'') \<and> \<not> limitInvalid (Get q ''limit'')"
  then obtain l where l: "resolveLimit (Get q ''limit'') = Inr l"
    using resolveLimit_valid by blast
  from a have "resolveOffset (Get q ''offset'') = Inl (Errorf ''invalid offset'')"
    by (simp add: resolveOffset_Inl)
  with l show "getBooks db q = invalid (Errorf ''invalid offset'')"
    by (rule getBooks_offset_fails)
next
  fix v :: int
  assume a: "0 \<le> v \<and> v < 2 ^ 63 \<and> Get q ''offset'' = Sprintf_d v"
  then have "Atoi (TrimSpace (Get q ''offset'')) = Some v"
    by (simp add: decimal_parses)
  with a show "resolveOffset (Get q ''offset'') = Inr v"
    by (simp only: resolveOffset_parsed)
next
  fix off c
  assume a: "resolveOffset (Get q ''offset'') = Inr off \<and> c \<in> set (dbCalls (getBooks db q))"
  then have "c \<in> set (dbCalls (getBooks db q))" by simp
  then show "boundTo (snd c) (length (snd c)) = Some (ArgInt off)"
  proof (rule getBooks_bound)
    fix l off'
    assume "resolveOffset (Get q ''offset'') = Inr off'"
      "snd c = boundArgs (TrimSpace (Get q ''genre'')) l off'"
    with a have "snd c = boundArgs (TrimSpace (Get q ''genre'')) l off" by simp
    then show ?thesis by (simp only: boundArgs_offset)
  qed
qed

theorem offset_resolution_witness:
  "reqDefault ''offset'' = None \<and> resolveOffset (Get reqDefault ''offset'') = Inr 0
   \<and> Atoi (TrimSpace (Get reqFull ''offset'')) = Some 20
   \<and> resolveOffset (Get reqFull ''offset'') = Inr 20
   \<and> offsetInvalid (Get reqOffsetNegative ''offset'')
   \<and> \<not> limitInvalid (Get reqOffsetNegative ''limit'')
   \<and> getBooks dbTwoRows reqOffsetNegative = invalid (Errorf ''invalid offset'')
   \<and> Get reqFull ''offset'' = Sprintf_d 20
   \<and> (''SELECT id, title, price, genre FROM books WHERE genre = $1 ORDER BY price DESC LIMIT $2 OFFSET $3'',
       [ArgString ''Fiction'', ArgInt 100, ArgInt 20]) \<in> set (dbCalls (getBooks dbTwoRows reqFull))
   \<and> boundTo [ArgString ''Fiction'', ArgInt 100, ArgInt 20] 3 = Some (ArgInt 20)"
proof -
  have h1: "reqDefault ''offset'' = None" by (simp add: reqDefault_def)
  have h2: "Atoi (TrimSpace (Get reqFull ''offset'')) = Some 20" by code_simp
  have h3: "offsetInvalid (Get reqOffsetNegative ''offset'')" by code_simp
  have h4: "\<not> limitInvalid (Get reqOffsetNegative ''limit'')" by code_simp
  have h5: "Get reqFull ''offset'' = Sprintf_d 20" by code_simp
  let ?sql = "''SELECT id, title, price, genre FROM books WHERE genre = $1 ORDER BY price DESC LIMIT $2 OFFSET $3''"
  let ?args = "[ArgString ''Fiction'', ArgInt 100, ArgInt 20]"
  have h6: "(?sql, ?args) \<in> set (dbCalls (getBooks dbTwoRows reqFull))"
    by code_simp
  have r1: "resolveOffset (Get reqDefault ''offset'') = Inr 0"
    by (rule offset_resolution[of reqDefault dbTwoRows, THEN conjunct1, rule_format])
       (simp add: h1)
  have r2: "resolveOffset (Get reqFull ''offset'') = Inr 20"
    by (rule offset_resolution[of reqFull dbTwoRows, THEN conjunct2, THEN conjunct1,
          rule_format, of 20]) (simp add: h2)
  have r3: "getBooks dbTwoRows reqOffsetNegative = invalid (Errorf ''invalid offset'')"
    by (rule offset_resolution[of reqOffsetNegative dbTwoRows, THEN conjunct2, THEN conjunct2,
          THEN conjunct1, rule_format]) (intro conjI h3 h4)
  have "boundTo (snd (?sql, ?args)) (length (snd (?sql, ?args))) = Some (ArgInt 20)"
    by (rule offset_resolution[of reqFull dbTwoRows, THEN conjunct2, THEN conjunct2,
          THEN conjunct2, THEN conjunct2, rule_format, of 20])
       (intro conjI r2 h6)
  then have r4: "boundTo ?args 3 = Some (ArgInt 20)" by (simp add: numeral_3_eq_3)
  show ?thesis by (intro conjI h1 r1 h2 r2 h3 h4 r3 h5 h6 r4)
qed

text \<open>
  Claim C3, as far as it holds. On the request without parameters, against a database
  whose cursor delivers no row and no error, \<^verbatim>\<open>getBooks\<close> returns the nil slice:
  \<^verbatim>\<open>books\<close> is declared by \<^verbatim>\<open>var books []Book\<close> and never appended to. The
  handler encodes it as the JSON value \<^verbatim>\<open>null\<close>, not as an array.
\<close>

theorem no_rows_counterexample:
  "validRequest reqDefault
   \<and> dbCalls (getBooks dbNoRows reqDefault) =
       [(''SELECT id, title, price, genre FROM books LIMIT $1 OFFSET $2'', [ArgInt 10, ArgInt 0])]
   \<and> dbNoRows ''SELECT id, title, price, genre FROM books LIMIT $1 OFFSET $2'' [ArgInt 10, ArgInt 0]
       = (3, Inr \<lparr>scans = [], rowsErr = None\<rparr>)
   \<and> books (getBooks dbNoRows reqDefault) = None
   \<and> payload (makeGetBooksHandler dbNoRows reqDefault) = JsonBody JNull
   \<and> payload (makeGetBooksHandler dbNoRows reqDefault) \<noteq> JsonBody (JArray [])"
proof -
  have v: "validRequest reqDefault" by code_simp
  have c: "dbCalls (getBooks dbNoRows reqDefault) =
       [(''SELECT id, title, price, genre FROM books LIMIT $1 OFFSET $2'', [ArgInt 10, ArgInt 0])]"
    by code_simp
  have b: "books (getBooks dbNoRows reqDefault) = None" by code_simp
  have p: "payload (makeGetBooksHandler dbNoRows reqDefault) = JsonBody JNull" by code_simp
  from v c b p show ?thesis by (simp add: dbNoRows_def)
qed

text \<open>
  Claim C3, amended. For a valid request whose statement is sent and matches no row,
  \<^verbatim>\<open>getBooks\<close> returns no error and the nil slice, a sequence of length 0; the
  handler answers with status 200 and the JSON value \<^verbatim>\<open>null\<close> as its body.
\<close>

theorem no_rows_gives_nil_slice:
  assumes "validRequest q"
    and "dbCalls (getBooks db q) = [(query, args)]"
    and "db query args = (elapsed, Inr rows)"
    and "scans rows = []" and "rowsErr rows = None"
  shows "err (getBooks db q) = None
         \<and> books (getBooks db q) = None \<and> len (books (getBooks db q)) = 0
         \<and> status (makeGetBooksHandler db q) = 200
         \<and> payload (makeGetBooksHandler db q) = JsonBody JNull"
proof -
  have "getBooks db q =
          \<lparr>books = None, queryTimeMs = elapsed, err = None,
           logs = [LogQuery query args elapsed], dbCalls = [(query, args)]\<rparr>"
    using getBooks_call[OF assms(2)] runQuery_no_rows[of db query args elapsed rows] assms(3-5)
    by simp
  then show ?thesis
    by (simp add: makeGetBooksHandler_def Let_def len_def StatusOK_def)
qed

theorem no_rows_gives_nil_slice_witness:
  "validRequest reqDefault
   \<and> dbCalls (getBooks dbNoRows reqDefault) =
       [(''SELECT id, title, price, genre FROM books LIMIT $1 OFFSET $2'', [ArgInt 10, ArgInt 0])]
   \<and> err (getBooks dbNoRows reqDefault) = None
   \<and> books (getBooks dbNoRows reqDefault) = None
   \<and> len (books (getBooks dbNoRows reqDefault)) = 0
   \<and> status (makeGetBooksHandler dbNoRows reqDefault) = 200
   \<and> payload (makeGetBooksHandler dbNoRows reqDefault) = JsonBody JNull"
proof -
  let ?sql = "''SELECT id, title, price, genre FROM books LIMIT $1 OFFSET $2''"
  let ?args = "[ArgInt 10, ArgInt 0]"
  let ?rows = "\<lparr>scans = [], rowsErr = None\<rparr> :: Rows"
  have v: "validRequest reqDefault" by code_simp
  have c: "dbCalls (getBooks dbNoRows reqDefault) = [(?sql, ?args)]" by code_simp
  have d: "dbNoRows ?sql ?args = (3, Inr ?rows)" by (simp add: dbNoRows_def)
  have s: "scans ?rows = []" "rowsErr ?rows = None" by simp_all
  from no_rows_gives_nil_slice[OF v c d s] v c show ?thesis by blast
qed

text \<open>
  Claim C6, as far as it holds. The request with \<^verbatim>\<open>limit=abc\<close> and
  \<^verbatim>\<open>sort=title\<close> has a sort value outside the accepted ones, and \<^verbatim>\<open>getBooks\<close>
  fails on it with \<^verbatim>\<open>invalid limit\<close>, not with \<^verbatim>\<open>invalid sort value\<close>: the
  limit and the offset are validated before the sort.
\<close>

theorem sort_rejected_counterexample:
  "sortInvalid (Get reqBadLimitBadSort ''sort'')
   \<and> err (getBooks dbTwoRows reqBadLimitBadSort) = Some (Errorf ''invalid limit'')
   \<and> err (getBooks dbTwoRows reqBadLimitBadSort) \<noteq> Some (Errorf ''invalid sort value'')"
proof -
  have "sortInvalid (Get reqBadLimitBadSort ''sort'')" by code_simp
  moreover have "err (getBooks dbTwoRows reqBadLimitBadSort) = Some (Errorf ''invalid limit'')"
    by code_simp
  ultimately show ?thesis by simp
qed

text \<open>
  Claim C6, amended. The switch on the trimmed sort parameter accepts exactly the empty
  string, \<^verbatim>\<open>price_asc\<close> and \<^verbatim>\<open>price_desc\<close>. When the limit and the offset have
  passed their validation, the statement is sent iff the sort value is one of these, and
  any other value makes \<^verbatim>\<open>getBooks\<close> fail with \<^verbatim>\<open>invalid sort value\<close>. With the
  empty value no statement that is sent contains \<^verbatim>\<open>ORDER BY\<close>.
\<close>

theorem sort_validation:
  "((\<exists>orderBy. resolveOrderBy (TrimSpace (Get q ''sort'')) = Inr orderBy)
      \<longleftrightarrow> TrimSpace (Get q ''sort'') \<in> set sortValues)
   \<and> (resolveOrderBy [] = Inr [])
   \<and> (\<not> limitInvalid (Get q ''limit'') \<and> \<not> offsetInvalid (Get q ''offset'') \<longrightarrow>
        (dbCalls (getBooks db q) \<noteq> [] \<longleftrightarrow> TrimSpace (Get q ''sort'') \<in> set sortValues)
        \<and> (TrimSpace (Get q ''sort'') \<notin> set sortValues \<longrightarrow>
             getBooks db q = invalid (Errorf ''invalid sort value'')))
   \<and> (TrimSpace (Get q ''sort'') = [] \<longrightarrow>
        (\<forall>c \<in> set (dbCalls (getBooks db q)). \<not> sublist ''ORDER BY'' (fst c)))"
proof (intro conjI impI)
  show "(\<exists>orderBy. resolveOrderBy (TrimSpace (Get q ''sort'')) = Inr orderBy)
      \<longleftrightarrow> TrimSpace (Get q ''sort'') \<in> set sortValues"
    by (auto simp: resolveOrderBy_Inr sortValues_def)
  show "resolveOrderBy [] = Inr []" by (simp add: resolveOrderBy_def)
next
  assume a: "\<not> limitInvalid (Get q ''limit'') \<and> \<not> offsetInvalid (Get q ''offset'')"
  show "dbCalls (getBooks db q) \<noteq> [] \<longleftrightarrow> TrimSpace (Get q ''sort'') \<in> set sortValues"
  proof (cases "validRequest q")
    case True
    then have "TrimSpace (Get q ''sort'') \<in> set sortValues"
      by (simp add: validRequest_def sortInvalid_def)
    moreover from True have "dbCalls (getBooks db q) \<noteq> []"
      by (rule getBooks_valid[of q db]) (simp add: runQuery_dbCalls)
    ultimately show ?thesis by simp
  next
    case False
    with a have "TrimSpace (Get q ''sort'') \<notin> set sortValues"
      by (simp add: validRequest_def sortInvalid_def)
    moreover from getBooks_invalid[OF False, of db] have "dbCalls (getBooks db q) = []"
      by (auto simp: dbCalls_invalid)
    ultimately show ?thesis by simp
  qed
next
  assume a: "\<not> limitInvalid (Get q ''limit'') \<and> \<not> offsetInvalid (Get q ''offset'')"
    and b: "TrimSpace (Get q ''sort'') \<notin> set sortValues"
  from a obtain l off where r: "resolveLimit (Get q ''limit'') = Inr l"
    "resolveOffset (Get q ''offset'') = Inr off"
    using resolveLimit_valid resolveOffset_valid by blast
  from b have "resolveOrderBy (TrimSpace (Get q ''sort'')) = Inl (Errorf ''invalid sort value'')"
    by (simp add: resolveOrderBy_Inl sortInvalid_def)
  with r show "getBooks db q = invalid (Errorf ''invalid sort value'')"
    by (rule getBooks_sort_fails)
next
  assume e: "TrimSpace (Get q ''sort'') = []"
  show "\<forall>c \<in> set (dbCalls (getBooks db q)). \<not> sublist ''ORDER BY'' (fst c)"
  proof
    fix c
    assume "c \<in> set (dbCalls (getBooks db q))"
    then have "fst c = sqlTemplate (TrimSpace (Get q ''genre'') \<noteq> []) []"
    proof (rule getBooks_bound)
      fix l off
      assume r: "resolveLimit (Get q ''limit'') = Inr l" "resolveOffset (Get q ''offset'') = Inr off"
      have ob: "resolveOrderBy (TrimSpace (Get q ''sort'')) = Inr []"
        by (simp add: e resolveOrderBy_def)
      from \<open>c \<in> set (dbCalls (getBooks db q))\<close> show ?thesis
        by (simp add: getBooks_runs[OF r ob] runQuery_dbCalls buildQuery_template[OF ob] e)
    qed
    then show "\<not> sublist ''ORDER BY'' (fst c)" by (simp add: no_order_by)
  qed
qed

theorem sort_validation_witness:
  "TrimSpace (Get reqFull ''sort'') \<in> set sortValues
   \<and> (\<exists>orderBy. resolveOrderBy (TrimSpace (Get reqFull ''sort'')) = Inr orderBy)
   \<and> \<not> limitInvalid (Get reqFull ''limit'') \<and> \<not> offsetInvalid (Get reqFull ''offset'')
   \<and> dbCalls (getBooks dbTwoRows reqFull) \<noteq> []
   \<and> \<not> limitInvalid (Get reqSortTitle ''limit'') \<and> \<not> offsetInvalid (Get reqSortTitle ''offset'')
   \<and> TrimSpace (Get reqSortTitle ''sort'') \<notin> set sortValues
   \<and> getBooks dbTwoRows reqSortTitle = invalid (Errorf ''invalid sort value'')
   \<and> TrimSpace (Get reqDefault ''sort'') = []
   \<and> (''SELECT id, title, price, genre FROM books LIMIT $1 OFFSET $2'', [ArgInt 10, ArgInt 0])
       \<in> set (dbCalls (getBooks dbTwoRows reqDefault))
   \<and> \<not> sublist ''ORDER BY'' ''SELECT id, title, price, genre FROM books LIMIT $1 OFFSET $2''"
proof -
  let ?sql = "''SELECT id, title, price, genre FROM books LIMIT $1 OFFSET $2''"
  let ?args = "[ArgInt 10, ArgInt 0]"
  have s1: "TrimSpace (Get reqFull ''sort'') \<in> set sortValues" by code_simp
  have v1: "\<not> limitInvalid (Get reqFull ''limit'') \<and> \<not> offsetInvalid (Get reqFull ''offset'')"
    by code_simp
  have v2: "\<not> limitInvalid (Get reqSortTitle ''limit'') \<and> \<not> offsetInvalid (Get reqSortTitle ''offset'')"
    by code_simp
  have s2: "TrimSpace (Get reqSortTitle ''sort'') \<notin> set sortValues" by code_simp
  have s3: "TrimSpace (Get reqDefault ''sort'') = []" by code_simp
  have c3: "(?sql, ?args) \<in> set (dbCalls (getBooks dbTwoRows reqDefault))" by code_simp
  note T1 = sort_validation[of reqFull dbTwoRows]
  note T2 = sort_validation[of reqSortTitle dbTwoRows]
  note T3 = sort_validation[of reqDefault dbTwoRows]
  have r1: "\<exists>orderBy. resolveOrderBy (TrimSpace (Get reqFull ''sort'')) = Inr orderBy"
    using T1[THEN conjunct1] s1 by (rule iffD2)
  have r2: "dbCalls (getBooks dbTwoRows reqFull) \<noteq> []"
    using T1[THEN conjunct2, THEN conjunct2, THEN conjunct1, rule_format, OF v1, THEN conjunct1] s1
    by (rule iffD2)
  have r3: "getBooks dbTwoRows reqSortTitle = invalid (Errorf ''invalid sort value'')"
    by (rule T2[THEN conjunct2, THEN conjunct2, THEN conjunct1, rule_format, OF v2,
          THEN conjunct2, rule_format, OF s2])
  have "\<not> sublist ''ORDER BY'' (fst (?sql, ?args))"
    by (rule T3[THEN conjunct2, THEN conjunct2, THEN conjunct2, rule_format, OF s3 c3])
  then have r4: "\<not> sublist ''ORDER BY'' ?sql" by simp
  show ?thesis using v1 v2 by (intro conjI s1 r1 r2 s2 r3 s3 c3 r4) simp_all
qed

text \<open>
  Claim C8, as far as it holds. On the request with \<^verbatim>\<open>limit=0\<close>, which fails
  validation, \<^verbatim>\<open>getBooks\<close> writes no log record: the only \<^verbatim>\<open>log.Printf\<close> comes
  after the call of the database, and the validation returns before it.
\<close>

theorem no_log_record_counterexample:
  "limitInvalid (Get reqLimitZero ''limit'')
   \<and> logs (getBooks dbTwoRows reqLimitZero) = []
   \<and> length (logs (getBooks dbTwoRows reqLimitZero)) \<noteq> 1"
proof -
  have "limitInvalid (Get reqLimitZero ''limit'')" by code_simp
  moreover have "logs (getBooks dbTwoRows reqLimitZero) = []" by code_simp
  ultimately show ?thesis by simp
qed

text \<open>
  Claim C8, amended. An invocation that passes validation writes exactly one log record,
  whether the query then succeeds or fails: it holds the text of the statement that was
  sent, its bound arguments in order, and the elapsed milliseconds that are also returned.
  An invocation that fails validation writes none.
\<close>

theorem one_log_record_per_query:
  "(validRequest q \<longrightarrow>
      (\<exists>query args. dbCalls (getBooks db q) = [(query, args)]
         \<and> logs (getBooks db q) = [LogQuery query args (fst (db query args))]
         \<and> queryTimeMs (getBooks db q) = fst (db query args)))
   \<and> (\<not> validRequest q \<longrightarrow> logs (getBooks db q) = [])"
proof (intro conjI impI)
  assume "validRequest q"
  then show "\<exists>query args. dbCalls (getBooks db q) = [(query, args)]
         \<and> logs (getBooks db q) = [LogQuery query args (fst (db query args))]
         \<and> queryTimeMs (getBooks db q) = fst (db query args)"
  proof (rule getBooks_valid[of q db])
    fix l off
    assume "getBooks db q =
       runQuery db (sqlTemplate (TrimSpace (Get q ''genre'') \<noteq> []) (TrimSpace (Get q ''sort'')))
                   (boundArgs (TrimSpace (Get q ''genre'')) l off)"
    then show ?thesis
      by (simp add: runQuery_dbCalls runQuery_logs runQuery_queryTimeMs)
  qed
next
  assume "\<not> validRequest q"
  from getBooks_invalid[OF this, of db] show "logs (getBooks db q) = []"
    by (auto simp: invalid_sel)
qed

theorem one_log_record_per_query_witness:
  "validRequest reqFull
   \<and> logs (getBooks dbTwoRows reqFull) =
       [LogQuery ''SELECT id, title, price, genre FROM books WHERE genre = $1 ORDER BY price DESC LIMIT $2 OFFSET $3''
          [ArgString ''Fiction'', ArgInt 100, ArgInt 20] 7]
   \<and> queryTimeMs (getBooks dbTwoRows reqFull) = 7
   \<and> logs (getBooks dbDown reqFull) =
       [LogQuery ''SELECT id, title, price, genre FROM books WHERE genre = $1 ORDER BY price DESC LIMIT $2 OFFSET $3''
          [ArgString ''Fiction'', ArgInt 100, ArgInt 20] 2]
   \<and> err (getBooks dbDown reqFull) = Some (SqlError ''connection refused'')
   \<and> \<not> validRequest reqLimitZero
   \<and> logs (getBooks dbTwoRows reqLimitZero) = []"
proof -
  let ?sql = "''SELECT id, title, price, genre FROM books WHERE genre = $1 ORDER BY price DESC LIMIT $2 OFFSET $3''"
  let ?args = "[ArgString ''Fiction'', ArgInt 100, ArgInt 20]"
  have v: "validRequest reqFull" by code_simp
  have n: "\<not> validRequest reqLimitZero" by code_simp
  have c1: "dbCalls (getBooks dbTwoRows reqFull) = [(?sql, ?args)]" by code_simp
  have c2: "dbCalls (getBooks dbDown reqFull) = [(?sql, ?args)]" by code_simp
  have e: "err (getBooks dbDown reqFull) = Some (SqlError ''connection refused'')" by code_simp
  have t: "fst (dbTwoRows ?sql ?args) = 7" "fst (dbDown ?sql ?args) = 2"
    by (simp_all add: dbTwoRows_def dbDown_def)
  have r1: "logs (getBooks dbTwoRows reqFull) = [LogQuery ?sql ?args 7]
            \<and> queryTimeMs (getBooks dbTwoRows reqFull) = 7"
    using one_log_record_per_query[of reqFull dbTwoRows, THEN conjunct1, rule_format, OF v] c1 t
    by auto
  have r2: "logs (getBooks dbDown reqFull) = [LogQuery ?sql ?args 2]"
    using one_log_record_per_query[of reqFull dbDown, THEN conjunct1, rule_format, OF v] c2 t
    by auto
  have r3: "logs (getBooks dbTwoRows reqLimitZero) = []"
    by (rule one_log_record_per_query[of reqLimitZero dbTwoRows, THEN conjunct2, rule_format, OF n])
  from v n e r1 r2 r3 show ?thesis by simp
qed

end
